theory Spec2Isabelle
  imports Main "HOL-Library.Word"
begin

section \<open>Strings, bytes and hexadecimal encoding\<close>

type_synonym byte = "8 word"

text \<open>An Ethereum address: 20 bytes.\<close>

type_synonym address = "160 word"

definition hexDigit :: "nat \<Rightarrow> char" where
  "hexDigit d = ''0123456789abcdef'' ! d"

text \<open>\<open>BN.prototype.toString(16)\<close>: lower-case digits, no leading zero, \<open>"0"\<close> for zero.\<close>

fun toString16 :: "nat \<Rightarrow> string" where
  "toString16 v = (if v < 16 then [hexDigit v] else toString16 (v div 16) @ [hexDigit (v mod 16)])"

declare toString16.simps [simp del]

text \<open>
  \<open>padLeft(string, chars)\<close> of web3-utils: a leading \<open>0x\<close> (either case of the x) is
  taken off and put back in front of the padding; a string that is already long enough is
  returned unpadded.
\<close>

definition padLeft :: "string \<Rightarrow> nat \<Rightarrow> string" where
  "padLeft s chars =
     (let hasPrefix = (take 2 s = ''0x'' \<or> take 2 s = ''0X'');
          body = (if hasPrefix then drop 2 s else s)
      in (if hasPrefix then ''0x'' else []) @ replicate (chars - length body) (CHR ''0'') @ body)"

text \<open>The template \<open>`0x${padLeft(v.toString(16), 64)}`\<close> that every constructor uses.\<close>

definition hex32 :: "nat \<Rightarrow> string" where
  "hex32 v = ''0x'' @ padLeft (toString16 v) 64"

definition hexVal :: "char \<Rightarrow> nat" where
  "hexVal c =
     (let v = (of_char c :: nat)
      in if 48 \<le> v \<and> v \<le> 57 then v - 48
         else if 97 \<le> v \<and> v \<le> 102 then v - 87
         else if 65 \<le> v \<and> v \<le> 70 then v - 55
         else 0)"

text \<open>\<open>new BN(str, 16)\<close>: the number a string of hexadecimal digits denotes.\<close>

definition parseHex :: "string \<Rightarrow> nat" where
  "parseHex s = foldl (\<lambda>acc c. acc * 16 + hexVal c) 0 s"

text \<open>\<open>new BN(buffer, 16)\<close>: a byte array is read as a big-endian number.\<close>

definition bytesToBN :: "byte list \<Rightarrow> nat" where
  "bytesToBN bs = foldl (\<lambda>acc b. acc * 256 + unat b) 0 bs"

fun toBytes :: "nat \<Rightarrow> byte list" where
  "toBytes v = (if v < 256 then [of_nat v] else toBytes (v div 256) @ [of_nat (v mod 256)])"

declare toBytes.simps [simp del]

text \<open>A number as a big-endian chunk, padded on the left to 32 bytes.\<close>

definition bytes32 :: "nat \<Rightarrow> byte list" where
  "bytes32 v = (let bs = toBytes v in replicate (32 - length bs) 0 @ bs)"

section \<open>The environment: curve constants and external primitives\<close>

text \<open>
  An affine point as the elliptic library holds it: the point at infinity has no
  coordinates.
\<close>

datatype point = Infinity | Point nat nat

text \<open>
  The module \<open>bn128\<close> (the constants \<open>curve.p\<close>, \<open>curve.n\<close> and the generator \<open>h\<close>) is
  not among the sources, and point arithmetic and Keccak-256 come from the libraries
  elliptic and web3-utils. The model takes them as parameters: every function below
  receives the environment, and every theorem holds for every environment.
\<close>

record env =
  curve_p :: nat
  curve_n :: nat
  bn_h :: point
  point_mul :: "point \<Rightarrow> nat \<Rightarrow> point"
  point_add :: "point \<Rightarrow> point \<Rightarrow> point"
  keccak256 :: "byte list \<Rightarrow> byte list"

text \<open>The constants of BN128, for reference: the base field and the group order.\<close>

definition bn128_p :: nat where
  "bn128_p = 21888242871839275222246405745257275088696311157297823662689037894645226208583"

definition bn128_n :: nat where
  "bn128_n = 21888242871839275222246405745257275088548364400416034343698204186575808495617"

text \<open>
  Scalars in the reduction context \<open>groupReduction\<close> are residues modulo \<open>curve.n\<close>;
  \<open>redMul\<close>, \<open>redAdd\<close> and \<open>redSub\<close> of bn.js are the operations of that ring.
\<close>

definition redMul :: "env \<Rightarrow> nat \<Rightarrow> nat \<Rightarrow> nat" where
  "redMul e a b = (a * b) mod curve_n e"

definition redAdd :: "env \<Rightarrow> nat \<Rightarrow> nat \<Rightarrow> nat" where
  "redAdd e a b = (a + b) mod curve_n e"

definition redSub :: "env \<Rightarrow> nat \<Rightarrow> nat \<Rightarrow> nat" where
  "redSub e a b = nat ((int a - int b) mod int (curve_n e))"

section \<open>Errors\<close>

text \<open>
  The named error kinds of the library, and \<open>TypeError\<close> for the exception JavaScript
  raises when a coordinate of the point at infinity (\<open>null\<close>) is dereferenced.
\<close>

datatype error =
    KPUBLIC_MALFORMED
  | M_TOO_BIG
  | NOT_ON_CURVE
  | POINT_AT_INFINITY
  | VIEWING_KEY_MALFORMED
  | NOTE_VALUE_TOO_BIG
  | BAD_BLINDING_FACTOR
  | INCORRECT_NOTE_NUMBER
  | CHALLENGE_RESPONSE_FAIL
  | ENCODING_INVALID_LENGTH
  | SCALAR_TOO_BIG
  | TypeError

section \<open>Notes and randomness\<close>

text \<open>A note: the fields \<open>k\<close>, \<open>a\<close>, \<open>gamma\<close>, \<open>sigma\<close> and \<open>owner\<close> of the source.\<close>

record Note =
  note_k :: nat
  note_a :: nat
  gamma :: point
  sigma :: point
  owner :: address

text \<open>
  The ambient random sources, made explicit: the successive results of
  \<open>bn128.randomGroupScalar()\<close> and of \<open>crypto.randomBytes(32)\<close> are two tapes, read in
  call order.
\<close>

record rng =
  scalarTape :: "nat \<Rightarrow> nat"
  scalarPos :: nat
  bytesTape :: "nat \<Rightarrow> byte list"
  bytesPos :: nat

definition randomGroupScalar :: "rng \<Rightarrow> nat \<times> rng" where
  "randomGroupScalar g = (scalarTape g (scalarPos g), g\<lparr>scalarPos := Suc (scalarPos g)\<rparr>)"

definition randomBytes32 :: "rng \<Rightarrow> byte list \<times> rng" where
  "randomBytes32 g = (bytesTape g (bytesPos g), g\<lparr>bytesPos := Suc (bytesPos g)\<rparr>)"

section \<open>The Keccak transcript\<close>

text \<open>
  Modelled from the spec: the class \<open>Keccak\<close> (module \<open>keccak\<close>, not among the sources).
  An append-only buffer of 32-byte chunks. Appending a scalar pads it on the left to 32
  bytes; appending a point appends x, then y. \<open>keccak(context)\<close> hashes the buffer, reads
  the digest as a big-endian number reduced in the context, and replaces the buffer by
  the digest, so that later calls chain.
\<close>

record keccak =
  kc_data :: "byte list list"

datatype redctx = groupReduction | fieldReduction

definition modulus :: "env \<Rightarrow> redctx \<Rightarrow> nat" where
  "modulus e c = (case c of groupReduction \<Rightarrow> curve_n e | fieldReduction \<Rightarrow> curve_p e)"

definition Keccak_new :: keccak where
  "Keccak_new = \<lparr>kc_data = []\<rparr>"

definition appendBN :: "keccak \<Rightarrow> nat \<Rightarrow> keccak" where
  "appendBN kc v = kc\<lparr>kc_data := kc_data kc @ [bytes32 v]\<rparr>"

fun append :: "keccak \<Rightarrow> point \<Rightarrow> error + keccak" where
  "append kc Infinity = Inl TypeError"
| "append kc (Point x y) = Inr (appendBN (appendBN kc x) y)"

definition keccak_finalize :: "env \<Rightarrow> redctx \<Rightarrow> keccak \<Rightarrow> nat \<times> keccak" where
  "keccak_finalize e c kc =
     (let digest = keccak256 e (concat (kc_data kc))
      in (bytesToBN digest mod modulus e c, \<lparr>kc_data = [digest]\<rparr>))"

fun appendAll :: "keccak \<Rightarrow> point list \<Rightarrow> error + keccak" where
  "appendAll kc [] = Inr kc"
| "appendAll kc (P # Ps) = (case append kc P of Inl err \<Rightarrow> Inl err | Inr kc' \<Rightarrow> appendAll kc' Ps)"

section \<open>Proof utilities\<close>

text \<open>Modelled from the spec: the constant \<open>K_MAX\<close> of dev-utils, \<open>2^32 - 1\<close>.\<close>

definition K_MAX :: nat where
  "K_MAX = 2 ^ 32 - 1"

text \<open>
  Modelled from the spec: point validation of \<open>bn128\<close>/\<open>proofUtils\<close> (not among the
  sources): coordinates in \<open>[0, p)\<close>, the curve equation \<open>y^2 = x^3 + 3\<close> modulo \<open>p\<close>, and
  \<open>(0, 0)\<close> rejected.
\<close>

fun validatePointOnCurve :: "env \<Rightarrow> point \<Rightarrow> bool" where
  "validatePointOnCurve e Infinity = False"
| "validatePointOnCurve e (Point x y) =
     (x < curve_p e \<and> y < curve_p e \<and> \<not> (x = 0 \<and> y = 0) \<and>
      (y * y) mod curve_p e = (x * x * x + 3) mod curve_p e)"

text \<open>
  Modelled from the spec: \<open>proofUtils.parseInputs(notes, sender, m, kPublic)\<close> (not among
  the sources). The sender is a 20-byte address by its type. Each note is checked for its
  viewing key (\<open>a\<close> in \<open>(0, n)\<close>), its value (\<open>k \<le> K_MAX\<close>) and its two points (not the
  identity, on the curve); then \<open>kPublic\<close> in \<open>[0, n)\<close> and \<open>m\<close> in \<open>[0, notes.length]\<close>,
  where the caller gives them. The notes come first: the test "should fail to construct
  a proof if point NOT on curve" passes \<open>m = 500\<close> with the bad point and expects
  \<open>NOT_ON_CURVE\<close>.
\<close>

definition parseNote :: "env \<Rightarrow> Note \<Rightarrow> error + unit" where
  "parseNote e nt =
     (if \<not> note_a nt < curve_n e \<or> note_a nt = 0 then Inl VIEWING_KEY_MALFORMED
      else if \<not> note_k nt \<le> K_MAX then Inl NOTE_VALUE_TOO_BIG
      else if gamma nt = Infinity \<or> sigma nt = Infinity then Inl POINT_AT_INFINITY
      else if \<not> validatePointOnCurve e (gamma nt) \<or> \<not> validatePointOnCurve e (sigma nt)
        then Inl NOT_ON_CURVE
      else Inr ())"

fun parseNotes :: "env \<Rightarrow> Note list \<Rightarrow> error + unit" where
  "parseNotes e [] = Inr ()"
| "parseNotes e (nt # nts) =
     (case parseNote e nt of Inl err \<Rightarrow> Inl err | Inr u \<Rightarrow> parseNotes e nts)"

definition parseInputs :: "env \<Rightarrow> Note list \<Rightarrow> address \<Rightarrow> nat option \<Rightarrow> nat option \<Rightarrow> error + unit" where
  "parseInputs e notes sender m kPublic =
     (case parseNotes e notes of
        Inl err \<Rightarrow> Inl err
      | Inr u \<Rightarrow>
          if (case kPublic of None \<Rightarrow> False | Some kp \<Rightarrow> \<not> kp < curve_n e) then Inl KPUBLIC_MALFORMED
          else if (case m of None \<Rightarrow> False | Some m' \<Rightarrow> m' > length notes) then Inl M_TOO_BIG
          else Inr ())"

text \<open>The blinding-factor record \<open>{ bk, ba, B }\<close>.\<close>

record blindingFactor =
  bf_bk :: nat
  bf_ba :: nat
  bf_B :: point

definition notePoints :: "Note list \<Rightarrow> point list" where
  "notePoints notes = concat (map (\<lambda>nt. [gamma nt, sigma nt]) notes)"

text \<open>
  Modelled from the spec: \<open>proofUtils.computeChallenge\<close> (not among the sources). A fresh
  transcript receives the sender (padded left to 32 bytes), the public scalars of the
  proof kind in the order given, each note's \<open>gamma\<close> and \<open>sigma\<close>, then each blinding
  factor's \<open>B\<close>; it is finalised to a scalar modulo \<open>n\<close>.
\<close>

definition computeChallenge ::
  "env \<Rightarrow> address \<Rightarrow> nat list \<Rightarrow> Note list \<Rightarrow> blindingFactor list \<Rightarrow> error + nat" where
  "computeChallenge e sender publics notes blindingFactors =
     (case appendAll (foldl appendBN (appendBN Keccak_new (unat sender)) publics)
             (notePoints notes @ map bf_B blindingFactors) of
        Inl err \<Rightarrow> Inl err
      | Inr kc \<Rightarrow> Inr (fst (keccak_finalize e groupReduction kc)))"

section \<open>Private range proofs\<close>

text \<open>
  \<open>privateRange.constructBlindingFactors\<close>. The callback of \<open>notes.map\<close> shares the
  variables \<open>bkArray\<close>, \<open>B\<close> and \<open>x\<close> and the transcript \<open>rollingHash\<close>, which \<open>keccak\<close>
  mutates; they are the loop state. \<open>B\<close> is assigned at \<open>i = 0\<close>, before its first use,
  and keeps its last value at an index beyond 2.
\<close>

record bfState =
  st_bkArray :: "nat list"
  st_B :: point
  st_x :: nat
  st_rollingHash :: keccak
  st_rng :: rng

definition blindingStep :: "env \<Rightarrow> Note \<Rightarrow> nat \<Rightarrow> bfState \<Rightarrow> blindingFactor \<times> bfState" where
  "blindingStep e nt i st =
     (let (ba, g1) = randomGroupScalar (st_rng st);
          (bk0, g2) = randomGroupScalar g1;
          lin = (\<lambda>s t. point_add e (point_mul e (gamma nt) s) (point_mul e (bn_h e) t));
          (bk, B, x, rh) =
            (if i = 0 then (bk0, lin bk0 ba, st_x st, st_rollingHash st)
             else if i = 1 then
               (let (x', rh') = keccak_finalize e groupReduction (st_rollingHash st);
                    xbk = redMul e bk0 x';
                    xba = redMul e ba x'
                in (bk0, lin xbk xba, x', rh'))
             else if i = 2 then
               (let bk' = redSub e (st_bkArray st ! (i - 2)) (st_bkArray st ! (i - 1));
                    (x', rh') = keccak_finalize e groupReduction (st_rollingHash st);
                    xbk = redMul e bk' x';
                    xba = redMul e ba x'
                in (bk', lin xbk xba, x', rh'))
             else (bk0, st_B st, st_x st, st_rollingHash st))
      in (\<lparr>bf_bk = bk, bf_ba = ba, bf_B = B\<rparr>,
          \<lparr>st_bkArray = st_bkArray st @ [bk], st_B = B, st_x = x, st_rollingHash = rh,
           st_rng = g2\<rparr>))"

fun blindingLoop :: "env \<Rightarrow> Note list \<Rightarrow> nat \<Rightarrow> bfState \<Rightarrow> blindingFactor list \<times> bfState" where
  "blindingLoop e [] i st = ([], st)"
| "blindingLoop e (nt # nts) i st =
     (let (bf, st') = blindingStep e nt i st;
          (bfs, st'') = blindingLoop e nts (Suc i) st'
      in (bf # bfs, st''))"

definition constructBlindingFactors ::
  "env \<Rightarrow> Note list \<Rightarrow> keccak \<Rightarrow> rng \<Rightarrow> blindingFactor list \<times> rng" where
  "constructBlindingFactors e notes rollingHash g =
     (let (bfs, st) = blindingLoop e notes 0
            \<lparr>st_bkArray = [], st_B = Infinity, st_x = 0, st_rollingHash = rollingHash, st_rng = g\<rparr>
      in (bfs, st_rng st))"

text \<open>
  In \<open>privateRange.constructProof\<close> the variable \<open>kBar\<close> holds a number at the first two
  indices and a padded string at the others; \<open>kBar.toString(16)\<close> formats the number and
  returns the string as it is.
\<close>

datatype kBarValue = KBarBN nat | KBarString string

fun kBar_toString16 :: "kBarValue \<Rightarrow> string" where
  "kBar_toString16 (KBarBN v) = toString16 v"
| "kBar_toString16 (KBarString s) = s"

definition proofRecord ::
  "env \<Rightarrow> Note \<Rightarrow> nat \<Rightarrow> blindingFactor \<Rightarrow> nat \<Rightarrow> rng \<Rightarrow> error + (string list \<times> rng)" where
  "proofRecord e nt challenge blindingFactor i g =
     (let (kBar, g') =
            (if i \<le> 1
             then (KBarBN (redAdd e (redMul e (note_k nt) challenge) (bf_bk blindingFactor)), g)
             else (let (bs, g1) = randomBytes32 g
                   in (KBarString (padLeft (toString16 (bytesToBN bs mod curve_n e)) 64), g1)));
          aBar = redAdd e (redMul e (note_a nt) challenge) (bf_ba blindingFactor)
      in case (gamma nt, sigma nt) of
           (Point gx gy, Point sx sy) \<Rightarrow>
             Inr ([''0x'' @ padLeft (kBar_toString16 kBar) 64,
                   ''0x'' @ padLeft (toString16 aBar) 64,
                   ''0x'' @ padLeft (toString16 gx) 64,
                   ''0x'' @ padLeft (toString16 gy) 64,
                   ''0x'' @ padLeft (toString16 sx) 64,
                   ''0x'' @ padLeft (toString16 sy) 64], g')
         | _ \<Rightarrow> Inl TypeError)"

text \<open>\<open>blindingFactors.map((blindingFactor, i) => ...)\<close>, which reads \<open>notes[i]\<close>.\<close>

fun proofDataLoop ::
  "env \<Rightarrow> Note list \<Rightarrow> nat \<Rightarrow> blindingFactor list \<Rightarrow> nat \<Rightarrow> rng \<Rightarrow> error + (string list list \<times> rng)" where
  "proofDataLoop e notes challenge [] i g = Inr ([], g)"
| "proofDataLoop e notes challenge (bf # bfs) i g =
     (if \<not> i < length notes then Inl TypeError
      else case proofRecord e (notes ! i) challenge bf i g of
             Inl err \<Rightarrow> Inl err
           | Inr (r, g') \<Rightarrow>
               (case proofDataLoop e notes challenge bfs (Suc i) g' of
                  Inl err \<Rightarrow> Inl err
                | Inr (rs, g'') \<Rightarrow> Inr (r # rs, g'')))"

record proofResult =
  proofData :: "string list list"
  challenge :: string

text \<open>The transcript \<open>rollingHash\<close> after \<open>notes.forEach\<close> has appended every note's points.\<close>

definition rollingHashOf :: "Note list \<Rightarrow> error + keccak" where
  "rollingHashOf notes = appendAll Keccak_new (notePoints notes)"

definition privateRange_constructProof ::
  "env \<Rightarrow> Note list \<Rightarrow> address \<Rightarrow> rng \<Rightarrow> error + (proofResult \<times> rng)" where
  "privateRange_constructProof e notes sender g =
     (case parseInputs e notes sender None None of
        Inl err \<Rightarrow> Inl err
      | Inr u \<Rightarrow>
     (case rollingHashOf notes of
        Inl err \<Rightarrow> Inl err
      | Inr rollingHash \<Rightarrow>
     (let (blindingFactors, g1) = constructBlindingFactors e notes rollingHash g
      in case computeChallenge e sender [] notes blindingFactors of
           Inl err \<Rightarrow> Inl err
         | Inr c \<Rightarrow>
        (case proofDataLoop e notes c blindingFactors 0 g1 of
           Inl err \<Rightarrow> Inl err
         | Inr (pd, g2) \<Rightarrow>
             Inr (\<lparr>proofData = pd, challenge = ''0x'' @ padLeft (toString16 c) 64\<rparr>, g2)))))"

text \<open>
  \<open>privateRange.encodePrivateRangeTransaction\<close>. The two coders of the module
  \<open>abiEncoder\<close> are not among the sources and are parameters; the object handed to
  \<open>outputCoder.encodeProofOutputs\<close> is a record.
\<close>

record proofOutput =
  inputNotes :: "Note list"
  outputNotes :: "Note list"
  publicOwner :: address
  publicValue :: nat
  po_challenge :: string

record abiEncoder =
  inputCoder_privateRange ::
    "string list list \<Rightarrow> string \<Rightarrow> address list \<Rightarrow> address list \<Rightarrow> Note list \<Rightarrow> string"
  outputCoder_encodeProofOutputs :: "proofOutput list \<Rightarrow> string"

definition ZERO_ADDRESS :: address where
  "ZERO_ADDRESS = 0"

record transaction =
  tx_proofData :: string
  expectedOutput :: string

definition encodePrivateRangeTransaction ::
  "env \<Rightarrow> abiEncoder \<Rightarrow> Note list \<Rightarrow> Note list \<Rightarrow> Note list \<Rightarrow> address \<Rightarrow> rng
     \<Rightarrow> error + (transaction \<times> rng)" where
  "encodePrivateRangeTransaction e coder originalNote comparisonNote utilityNote senderAddress g =
     (let inNotes = originalNote @ comparisonNote;
          outNotes = utilityNote;
          inputOwners = map owner inNotes;
          outputOwners = map owner outNotes
      in case privateRange_constructProof e (inNotes @ outNotes) senderAddress g of
           Inl err \<Rightarrow> Inl err
         | Inr (prf, g') \<Rightarrow>
             (let pd = inputCoder_privateRange coder (proofData prf) (challenge prf)
                         inputOwners outputOwners outNotes;
                  pOwner = ZERO_ADDRESS;
                  pValue = 0;
                  expected = ''0x'' @ drop 0x42
                    (outputCoder_encodeProofOutputs coder
                       [\<lparr>inputNotes = inNotes, outputNotes = outNotes, publicOwner = pOwner,
                         publicValue = pValue, po_challenge = challenge prf\<rparr>])
              in Inr (\<lparr>tx_proofData = pd, expectedOutput = expected\<rparr>, g')))"


section \<open>Constructors whose code is not among the sources\<close>

text \<open>
  Modelled from the spec: the per-note record of a proof transcript,
  \<open>[kBar, aBar, gamma.x, gamma.y, sigma.x, sigma.y]\<close>, each slot a 32-byte hexadecimal
  string (the modules \<open>joinSplit\<close>, \<open>dividendComputation\<close> and \<open>bilateralSwap\<close> are
  not among the sources; only their tests are).
\<close>

definition transcriptRecord :: "Note \<Rightarrow> nat \<Rightarrow> nat \<Rightarrow> error + string list" where
  "transcriptRecord nt kBar aBar =
     (case (gamma nt, sigma nt) of
        (Point gx gy, Point sx sy) \<Rightarrow>
          Inr [hex32 kBar, hex32 aBar, hex32 gx, hex32 gy, hex32 sx, hex32 sy]
      | _ \<Rightarrow> Inl TypeError)"

fun collect :: "(error + 'a) list \<Rightarrow> error + 'a list" where
  "collect [] = Inr []"
| "collect (x # xs) =
     (case x of
        Inl err \<Rightarrow> Inl err
      | Inr v \<Rightarrow> (case collect xs of Inl err \<Rightarrow> Inl err | Inr vs \<Rightarrow> Inr (v # vs)))"

text \<open>
  Modelled from the spec: the skeleton that the constructors share. The inputs are
  validated; the rolling hash is initialised over every note's points; each note gets a
  blinding-factor record; the challenge is computed; each note gets its record, with
  \<open>aBar = a * c + ba\<close>. What the specification leaves to the proof kind is a parameter:
  \<open>schema\<close> gives the blinding-factor record of note \<open>i\<close>, and \<open>kBarRule\<close> the response
  in the \<open>kBar\<close> slot of note \<open>i\<close>.
\<close>

type_synonym blindingSchema = "Note list \<Rightarrow> keccak \<Rightarrow> nat \<Rightarrow> blindingFactor"

type_synonym kBarRule = "nat \<Rightarrow> blindingFactor list \<Rightarrow> nat \<Rightarrow> nat"

definition constructSkeleton ::
  "env \<Rightarrow> blindingSchema \<Rightarrow> kBarRule \<Rightarrow> Note list \<Rightarrow> address \<Rightarrow> nat option \<Rightarrow> nat option
     \<Rightarrow> nat list \<Rightarrow> error + proofResult" where
  "constructSkeleton e schema kBarOf notes sender m kPublic publics =
     (case parseInputs e notes sender m kPublic of
        Inl err \<Rightarrow> Inl err
      | Inr u \<Rightarrow>
     (case rollingHashOf notes of
        Inl err \<Rightarrow> Inl err
      | Inr rollingHash \<Rightarrow>
     (let blindingFactors = map (schema notes rollingHash) [0..<length notes]
      in case computeChallenge e sender publics notes blindingFactors of
           Inl err \<Rightarrow> Inl err
         | Inr c \<Rightarrow>
        (case collect (map (\<lambda>i. transcriptRecord (notes ! i) (kBarOf c blindingFactors i)
                                (redAdd e (redMul e (note_a (notes ! i)) c)
                                   (bf_ba (blindingFactors ! i))))
                         [0..<length notes]) of
           Inl err \<Rightarrow> Inl err
         | Inr pd \<Rightarrow> Inr \<lparr>proofData = pd, challenge = hex32 c\<rparr>))))"

text \<open>
  Modelled from the spec: the response \<open>kBar = k * c + bk\<close> of a note, and the
  blinding factor of a note in a standard position, \<open>B = bk * gamma + ba * h\<close>, with
  \<open>bk\<close> and \<open>ba\<close> drawn for the note (here from a tape of scalars).
\<close>

definition response_kBar :: "env \<Rightarrow> Note list \<Rightarrow> kBarRule" where
  "response_kBar e notes c blindingFactors i =
     redAdd e (redMul e (note_k (notes ! i)) c) (bf_bk (blindingFactors ! i))"

definition standardBlinding :: "env \<Rightarrow> (nat \<Rightarrow> nat) \<Rightarrow> blindingSchema" where
  "standardBlinding e tape notes rollingHash i =
     (let bk = tape (2 * i);
          ba = tape (2 * i + 1)
      in \<lparr>bf_bk = bk, bf_ba = ba,
          bf_B = point_add e (point_mul e (gamma (notes ! i)) bk) (point_mul e (bn_h e) ba)\<rparr>)"

text \<open>
  Modelled from the spec: \<open>joinSplit.constructProof(notes, m, sender, kPublic)\<close>. The
  responses are \<open>kBar = k * c + bk\<close>, and the final record stores \<open>kPublic\<close> in the
  \<open>kBar\<close> slot; the challenge absorbs \<open>kPublic\<close> and \<open>m\<close> after the sender.
\<close>

definition joinSplit_kBar :: "env \<Rightarrow> Note list \<Rightarrow> nat \<Rightarrow> kBarRule" where
  "joinSplit_kBar e notes kPublic c blindingFactors i =
     (if Suc i = length notes then kPublic
      else response_kBar e notes c blindingFactors i)"

definition joinSplit_constructProof ::
  "env \<Rightarrow> blindingSchema \<Rightarrow> Note list \<Rightarrow> nat \<Rightarrow> address \<Rightarrow> nat \<Rightarrow> error + proofResult" where
  "joinSplit_constructProof e schema notes m sender kPublic =
     constructSkeleton e schema (joinSplit_kBar e notes kPublic) notes sender (Some m)
       (Some kPublic) [kPublic, m]"

text \<open>
  Modelled from the spec: \<open>dividendComputation.constructProof(notes, za, zb, sender)\<close>.
  It returns the per-note records (\<open>proofDataUnformatted\<close>), the same records flattened
  (\<open>proofData\<close>) and the challenge, which absorbs \<open>za\<close> and \<open>zb\<close> after the sender.
\<close>

record dividendResult =
  proofDataUnformatted :: "string list list"
  dv_proofData :: "string list"
  dv_challenge :: string

definition dividend_constructProof ::
  "env \<Rightarrow> blindingSchema \<Rightarrow> kBarRule \<Rightarrow> Note list \<Rightarrow> nat \<Rightarrow> nat \<Rightarrow> address
     \<Rightarrow> error + dividendResult" where
  "dividend_constructProof e schema kBarOf notes za zb sender =
     (case constructSkeleton e schema kBarOf notes sender None None [za, zb] of
        Inl err \<Rightarrow> Inl err
      | Inr prf \<Rightarrow>
          Inr \<lparr>proofDataUnformatted = proofData prf, dv_proofData = concat (proofData prf),
               dv_challenge = challenge prf\<rparr>)"

text \<open>
  Modelled from the spec: \<open>proofUtils.getBlindingFactorsAndChallenge(notes, finalHash)\<close>,
  which the bilateral-swap test calls. Every note draws \<open>bk\<close> and \<open>ba\<close>; the two swapped
  pairs share blinding scalars, so a note of the second pair takes the \<open>bk\<close> of the note
  two places before it; \<open>B = bk * gamma + ba * h\<close>. The points \<open>B\<close> are appended to the
  transcript, which is finalised into the challenge.
\<close>

fun swapBlindingLoop ::
  "env \<Rightarrow> Note list \<Rightarrow> nat \<Rightarrow> nat list \<Rightarrow> rng \<Rightarrow> blindingFactor list \<times> rng" where
  "swapBlindingLoop e [] i bkArray g = ([], g)"
| "swapBlindingLoop e (nt # nts) i bkArray g =
     (let (bk0, g1) = randomGroupScalar g;
          (ba, g2) = randomGroupScalar g1;
          bk = (if i \<le> 1 then bk0 else bkArray ! (i - 2));
          B = point_add e (point_mul e (gamma nt) bk) (point_mul e (bn_h e) ba);
          (bfs, g') = swapBlindingLoop e nts (Suc i) (bkArray @ [bk]) g2
      in (\<lparr>bf_bk = bk, bf_ba = ba, bf_B = B\<rparr> # bfs, g'))"

definition getBlindingFactorsAndChallenge ::
  "env \<Rightarrow> Note list \<Rightarrow> keccak \<Rightarrow> rng \<Rightarrow> error + (blindingFactor list \<times> nat \<times> rng)" where
  "getBlindingFactorsAndChallenge e notes finalHash g =
     (let (bfs, g') = swapBlindingLoop e notes 0 [] g
      in case appendAll finalHash (map bf_B bfs) of
           Inl err \<Rightarrow> Inl err
         | Inr kc \<Rightarrow> Inr (bfs, fst (keccak_finalize e groupReduction kc), g'))"


section \<open>A small environment for running the model\<close>

text \<open>
  The curve \<open>y^2 = x^3 + 3\<close> over the field of 211 elements has prime order 199, as
  BN128 has over its own field; the point arithmetic is the affine group law. The
  digest is a polynomial checksum of the bytes, standing in for Keccak-256. The notes
  below are of the form \<open>sigma = k * h + a * gamma\<close> on this curve.
\<close>

fun mod_exp :: "nat \<Rightarrow> nat \<Rightarrow> nat \<Rightarrow> nat" where
  "mod_exp p b j =
     (if j = 0 then 1 mod p
      else if even j then mod_exp p ((b * b) mod p) (j div 2)
      else (b * mod_exp p ((b * b) mod p) (j div 2)) mod p)"

declare mod_exp.simps [simp del]

definition inv_mod :: "nat \<Rightarrow> nat \<Rightarrow> nat" where
  "inv_mod p x = mod_exp p (x mod p) (p - 2)"

fun ec_add :: "nat \<Rightarrow> point \<Rightarrow> point \<Rightarrow> point" where
  "ec_add p Infinity Q = Q"
| "ec_add p (Point x1 y1) Infinity = Point x1 y1"
| "ec_add p (Point x1 y1) (Point x2 y2) =
     (if x1 = x2 \<and> (y1 + y2) mod p = 0 then Infinity
      else let l = (if x1 = x2 then 3 * x1 * x1 * inv_mod p (2 * y1)
                    else (y2 + p - y1) * inv_mod p (x2 + p - x1)) mod p;
               x3 = (l * l + 2 * p - x1 - x2) mod p;
               y3 = (l * (x1 + p - x3) + p - y1) mod p
           in Point x3 y3)"

fun ec_mul :: "nat \<Rightarrow> point \<Rightarrow> nat \<Rightarrow> point" where
  "ec_mul p P s =
     (if s = 0 then Infinity
      else if even s then ec_mul p (ec_add p P P) (s div 2)
      else ec_add p P (ec_mul p (ec_add p P P) (s div 2)))"

declare ec_mul.simps [simp del]

definition checksum_step :: "nat \<Rightarrow> byte \<Rightarrow> nat" where
  "checksum_step acc b = (acc * 31 + unat b + 1) mod 1000003"

definition checksum :: "byte list \<Rightarrow> byte list" where
  "checksum bs = bytes32 (foldl checksum_step 7 bs)"

definition test_env :: env where
  "test_env = \<lparr>curve_p = 211, curve_n = 199, bn_h = Point 49 97,
               point_mul = ec_mul 211, point_add = ec_add 211, keccak256 = checksum\<rparr>"

definition test_sender :: address where
  "test_sender = 0xC0FFEE"

definition test_rng :: rng where
  "test_rng = \<lparr>scalarTape = (\<lambda>i. (37 * i + 12) mod 199), scalarPos = 0,
               bytesTape = (\<lambda>i. replicate 30 0 @ [1, of_nat (44 + i)]), bytesPos = 0\<rparr>"

text \<open>Three notes of values 10, 4 and 6 for a private range proof.\<close>

definition test_notes :: "Note list" where
  "test_notes =
     [\<lparr>note_k = 10, note_a = 23, gamma = Point 9 164, sigma = Point 23 115, owner = 0xA1\<rparr>,
      \<lparr>note_k = 4, note_a = 45, gamma = Point 118 191, sigma = Point 142 77, owner = 0xA2\<rparr>,
      \<lparr>note_k = 6, note_a = 67, gamma = Point 32 53, sigma = Point 58 28, owner = 0xA3\<rparr>]"

text \<open>The transcript that holds the given numbers as its chunks.\<close>

definition transcriptOf :: "nat list \<Rightarrow> keccak" where
  "transcriptOf vs = \<lparr>kc_data = map bytes32 vs\<rparr>"

definition test_rollingHash0 :: keccak where
  "test_rollingHash0 = transcriptOf [9, 164, 23, 115, 118, 191, 142, 77, 32, 53, 58, 28]"

definition test_blindingFactors :: "blindingFactor list" where
  "test_blindingFactors =
     [\<lparr>bf_bk = 49, bf_ba = 12, bf_B = Point 35 16\<rparr>,
      \<lparr>bf_bk = 123, bf_ba = 86, bf_B = Point 72 186\<rparr>,
      \<lparr>bf_bk = 125, bf_ba = 160, bf_B = Point 161 166\<rparr>]"

definition test_proof :: proofResult where
  "test_proof = \<lparr>proofData = map (map hex32)
       [[41, 113, 9, 164, 23, 115], [80, 50, 118, 191, 142, 77], [101, 186, 32, 53, 58, 28]],
     challenge = hex32 39\<rparr>"

text \<open>A second run: other notes, another sender, other scalars, the same random bytes.\<close>

definition test_sender2 :: address where
  "test_sender2 = 0xBEEF"

definition test_notes2 :: "Note list" where
  "test_notes2 =
     [\<lparr>note_k = 4, note_a = 45, gamma = Point 118 191, sigma = Point 142 77, owner = 0xA2\<rparr>,
      \<lparr>note_k = 10, note_a = 23, gamma = Point 9 164, sigma = Point 23 115, owner = 0xA1\<rparr>,
      \<lparr>note_k = 7, note_a = 83, gamma = Point 138 80, sigma = Point 115 137, owner = 0xB3\<rparr>]"

definition test_rng2 :: rng where
  "test_rng2 = test_rng\<lparr>scalarTape := (\<lambda>i. (91 * i + 3) mod 199)\<rparr>"

text \<open>Two input and three output notes (10, 20; 5, 15, 10) for a join-split proof.\<close>

definition test_joinSplitNotes :: "Note list" where
  "test_joinSplitNotes =
    [\<lparr>note_k = 10, note_a = 102, gamma = Point 155 19, sigma = Point 196 2, owner = 0xC1\<rparr>,
     \<lparr>note_k = 20, note_a = 13, gamma = Point 97 177, sigma = Point 40 131, owner = 0xC2\<rparr>,
     \<lparr>note_k = 5, note_a = 138, gamma = Point 78 207, sigma = Point 69 197, owner = 0xC3\<rparr>,
     \<lparr>note_k = 15, note_a = 94, gamma = Point 192 23, sigma = Point 184 187, owner = 0xC4\<rparr>,
     \<lparr>note_k = 10, note_a = 15, gamma = Point 74 188, sigma = Point 146 10, owner = 0xC5\<rparr>]"

text \<open>Four notes (10, 20, 10, 20) for a bilateral swap.\<close>

definition test_swapNotes :: "Note list" where
  "test_swapNotes =
    [\<lparr>note_k = 10, note_a = 55, gamma = Point 112 84, sigma = Point 111 96, owner = 0xD1\<rparr>,
     \<lparr>note_k = 20, note_a = 23, gamma = Point 166 175, sigma = Point 91 127, owner = 0xD2\<rparr>,
     \<lparr>note_k = 10, note_a = 108, gamma = Point 160 55, sigma = Point 142 77, owner = 0xD3\<rparr>,
     \<lparr>note_k = 20, note_a = 62, gamma = Point 92 177, sigma = Point 207 19, owner = 0xD4\<rparr>]"

text \<open>Three notes (90, 4, 50) for a dividend computation.\<close>

definition test_dividendNotes :: "Note list" where
  "test_dividendNotes =
    [\<lparr>note_k = 90, note_a = 142, gamma = Point 149 152, sigma = Point 96 207, owner = 0xE1\<rparr>,
     \<lparr>note_k = 4, note_a = 16, gamma = Point 115 74, sigma = Point 138 131, owner = 0xE2\<rparr>,
     \<lparr>note_k = 50, note_a = 32, gamma = Point 139 15, sigma = Point 109 114, owner = 0xE3\<rparr>]"

definition test_schema :: blindingSchema where
  "test_schema = standardBlinding test_env (scalarTape test_rng)"

definition test_rollingHash2 :: keccak where
  "test_rollingHash2 = transcriptOf [118, 191, 142, 77, 9, 164, 23, 115, 138, 80, 115, 137]"

definition test_blindingFactors2 :: "blindingFactor list" where
  "test_blindingFactors2 =
     [\<lparr>bf_bk = 94, bf_ba = 3, bf_B = Point 118 191\<rparr>,
      \<lparr>bf_bk = 77, bf_ba = 185, bf_B = Point 205 118\<rparr>,
      \<lparr>bf_bk = 17, bf_ba = 168, bf_B = Point 130 55\<rparr>]"

definition test_proof2 :: proofResult where
  "test_proof2 = \<lparr>proofData = map (map hex32)
       [[31, 140, 118, 191, 142, 77], [19, 171, 9, 164, 23, 115], [101, 5, 138, 80, 115, 137]],
     challenge = hex32 34\<rparr>"

definition test_joinSplitProof :: proofResult where
  "test_joinSplitProof = \<lparr>proofData = map (map hex32)
       [[98, 170, 155, 19, 196, 2], [59, 195, 97, 177, 40, 131], [4, 150, 78, 207, 69, 197],
        [164, 164, 192, 23, 184, 187], [0, 76, 74, 188, 146, 10]],
     challenge = hex32 128\<rparr>"

definition test_dividendResult :: dividendResult where
  "test_dividendResult =
     \<lparr>proofDataUnformatted = map (map hex32)
        [[67, 180, 149, 152, 96, 207], [0, 177, 115, 74, 138, 131], [80, 106, 139, 15, 109, 114]],
      dv_proofData = map hex32
        [67, 180, 149, 152, 96, 207, 0, 177, 115, 74, 138, 131, 80, 106, 139, 15, 109, 114],
      dv_challenge = hex32 78\<rparr>"

definition test_swapBlindingFactors :: "blindingFactor list" where
  "test_swapBlindingFactors =
     [\<lparr>bf_bk = 12, bf_ba = 49, bf_B = Point 53 114\<rparr>,
      \<lparr>bf_bk = 86, bf_ba = 123, bf_B = Point 142 77\<rparr>,
      \<lparr>bf_bk = 12, bf_ba = 197, bf_B = Point 150 144\<rparr>,
      \<lparr>bf_bk = 86, bf_ba = 72, bf_B = Point 1 209\<rparr>]"


text \<open>
  Coders for running \<open>encodePrivateRangeTransaction\<close>: the output coder writes a length
  word, then the public owner, the public value and the challenge of each proof output.
\<close>

definition test_coder :: abiEncoder where
  "test_coder =
     \<lparr>inputCoder_privateRange = (\<lambda>pd c inputOwners outputOwners outNotes. concat (concat pd) @ c),
      outputCoder_encodeProofOutputs =
        (\<lambda>pos. hex32 (length pos) @
           concat (map (\<lambda>po. hex32 (unat (publicOwner po)) @ hex32 (publicValue po) @ po_challenge po)
                   pos))\<rparr>"

definition test_transaction :: transaction where
  "test_transaction =
     \<lparr>tx_proofData = concat (concat (proofData test_proof)) @ challenge test_proof,
      expectedOutput = ''0x'' @ hex32 0 @ hex32 0 @ hex32 39\<rparr>"

section \<open>Facts about the encoding and the private range constructor\<close>

lemma hexDigit_in: "d < 16 \<Longrightarrow> hexDigit d \<in> set ''0123456789abcdef''"
  unfolding hexDigit_def by (rule nth_mem) simp

lemma hexVal_hexDigit: "d < 16 \<Longrightarrow> hexVal (hexDigit d) = d"
proof -
  have "\<forall>d \<in> set [0..<16]. hexVal (hexDigit d) = d"
    by (simp add: upt_rec hexDigit_def hexVal_def)
  then show "d < 16 \<Longrightarrow> hexVal (hexDigit d) = d" by simp
qed

lemma toString16_digits: "set (toString16 v) \<subseteq> set ''0123456789abcdef''"
proof (induction v rule: toString16.induct)
  case (1 v)
  show ?case
  proof (cases "v < 16")
    case True
    then show ?thesis using hexDigit_in [of v] by (subst toString16.simps) simp
  next
    case False
    have "v mod 16 < 16" by simp
    from hexDigit_in [OF this] 1 [OF False] False show ?thesis
      by (subst toString16.simps) simp
  qed
qed

lemma toString16_no_x: "CHR ''x'' \<notin> set (toString16 v)" "CHR ''X'' \<notin> set (toString16 v)"
  using toString16_digits [of v] by auto

lemma padLeft_plain:
  assumes "CHR ''x'' \<notin> set s" "CHR ''X'' \<notin> set s"
  shows "padLeft s n = replicate (n - length s) (CHR ''0'') @ s"
proof -
  have "take 2 s \<noteq> ''0x''"
  proof
    assume "take 2 s = ''0x''"
    then have "CHR ''x'' \<in> set (take 2 s)" by simp
    then show False using assms(1) by (meson in_set_takeD)
  qed
  moreover have "take 2 s \<noteq> ''0X''"
  proof
    assume "take 2 s = ''0X''"
    then have "CHR ''X'' \<in> set (take 2 s)" by simp
    then show False using assms(2) by (meson in_set_takeD)
  qed
  ultimately show ?thesis by (simp add: padLeft_def)
qed

lemma padLeft_toString16:
  "padLeft (toString16 v) n = replicate (n - length (toString16 v)) (CHR ''0'') @ toString16 v"
  by (rule padLeft_plain) (rule toString16_no_x)+

lemma padLeft_idem: "padLeft (padLeft (toString16 v) n) n = padLeft (toString16 v) n"
proof -
  have "CHR ''x'' \<notin> set (padLeft (toString16 v) n)" "CHR ''X'' \<notin> set (padLeft (toString16 v) n)"
    using toString16_no_x [of v] by (auto simp: padLeft_toString16)
  then have "padLeft (padLeft (toString16 v) n) n =
      replicate (n - length (padLeft (toString16 v) n)) (CHR ''0'') @ padLeft (toString16 v) n"
    by (rule padLeft_plain)
  moreover have "n - length (padLeft (toString16 v) n) = 0"
    by (simp add: padLeft_toString16)
  ultimately show ?thesis by simp
qed

lemma parseHex_snoc: "parseHex (s @ [c]) = parseHex s * 16 + hexVal c"
  by (simp add: parseHex_def)

lemma parseHex_toString16: "parseHex (toString16 v) = v"
proof (induction v rule: toString16.induct)
  case (1 v)
  show ?case
  proof (cases "v < 16")
    case True
    then show ?thesis
      by (subst toString16.simps) (simp add: parseHex_def hexVal_hexDigit)
  next
    case False
    with 1 show ?thesis
      by (subst toString16.simps) (simp add: parseHex_snoc hexVal_hexDigit)
  qed
qed

lemma parseHex_zeros: "parseHex (replicate j (CHR ''0'') @ s) = parseHex s"
proof -
  have "foldl (\<lambda>acc c. acc * 16 + hexVal c) 0 (replicate j (CHR ''0'')) = 0"
    by (induction j) (simp_all add: hexVal_def)
  then show ?thesis by (simp add: parseHex_def)
qed

lemma parseHex_hex32: "parseHex (drop 2 (hex32 v)) = v"
  by (simp add: hex32_def padLeft_toString16 parseHex_zeros parseHex_toString16)

lemma length_toString16: "0 < j \<Longrightarrow> v < 16 ^ j \<Longrightarrow> length (toString16 v) \<le> j"
proof (induction v arbitrary: j rule: toString16.induct)
  case (1 v)
  show ?case
  proof (cases "v < 16")
    case True
    with 1(2) show ?thesis by (subst toString16.simps) simp
  next
    case False
    then obtain i where j: "j = Suc i" using 1(2) by (cases j) auto
    with False 1(3) have "0 < i" by (cases i) auto
    moreover from 1(3) j have "v div 16 < 16 ^ i"
      by (simp add: less_mult_imp_div_less mult.commute)
    ultimately have "length (toString16 (v div 16)) \<le> i" using 1(1) [OF False] by blast
    with False j show ?thesis by (subst toString16.simps) simp
  qed
qed

lemma length_hex32: "v < 2 ^ 256 \<Longrightarrow> length (hex32 v) = 66"
proof -
  assume "v < 2 ^ 256"
  then have "v < 16 ^ 64" by simp
  then have "length (toString16 v) \<le> 64" by (intro length_toString16) simp_all
  then show ?thesis by (simp add: hex32_def padLeft_toString16)
qed

lemma list3: "length xs = 3 \<Longrightarrow> \<exists>a b c. xs = [a, b, c]"
  by (auto simp: length_Suc_conv numeral_3_eq_3)

lemma blindingFactors3:
  "constructBlindingFactors e [n0, n1, n2] rh g =
    (let ba0 = scalarTape g (scalarPos g); bk0 = scalarTape g (Suc (scalarPos g));
         ba1 = scalarTape g (Suc (Suc (scalarPos g))); bk1 = scalarTape g (Suc (Suc (Suc (scalarPos g))));
         ba2 = scalarTape g (Suc (Suc (Suc (Suc (scalarPos g)))));
         x1 = fst (keccak_finalize e groupReduction rh);
         x2 = fst (keccak_finalize e groupReduction (snd (keccak_finalize e groupReduction rh)));
         bk2 = redSub e bk0 bk1;
         lin = (\<lambda>P s t. point_add e (point_mul e P s) (point_mul e (bn_h e) t))
     in ([\<lparr>bf_bk = bk0, bf_ba = ba0, bf_B = lin (gamma n0) bk0 ba0\<rparr>,
          \<lparr>bf_bk = bk1, bf_ba = ba1, bf_B = lin (gamma n1) (redMul e bk1 x1) (redMul e ba1 x1)\<rparr>,
          \<lparr>bf_bk = bk2, bf_ba = ba2, bf_B = lin (gamma n2) (redMul e bk2 x2) (redMul e ba2 x2)\<rparr>],
         g\<lparr>scalarPos := scalarPos g + 6\<rparr>))"
  by (simp add: constructBlindingFactors_def blindingStep_def randomGroupScalar_def Let_def
      split_beta)

lemma constructProof_Inr:
  assumes "privateRange_constructProof e notes sender g = Inr (prf, g')"
  obtains rh bfs g1 c pd where
    "parseInputs e notes sender None None = Inr ()"
    "rollingHashOf notes = Inr rh"
    "constructBlindingFactors e notes rh g = (bfs, g1)"
    "computeChallenge e sender [] notes bfs = Inr c"
    "proofDataLoop e notes c bfs 0 g1 = Inr (pd, g')"
    "prf = \<lparr>proofData = pd, challenge = hex32 c\<rparr>"
  using assms
  by (auto simp: privateRange_constructProof_def hex32_def split: sum.splits prod.splits)

lemma proofRecord_Inr:
  assumes "proofRecord e nt c bf i g = Inr (r, g')"
  obtains gx gy sx sy kBar where
    "gamma nt = Point gx gy" "sigma nt = Point sx sy"
    "kBar = (if i \<le> 1 then redAdd e (redMul e (note_k nt) c) (bf_bk bf)
             else bytesToBN (bytesTape g (bytesPos g)) mod curve_n e)"
    "r = [hex32 kBar, hex32 (redAdd e (redMul e (note_a nt) c) (bf_ba bf)),
          hex32 gx, hex32 gy, hex32 sx, hex32 sy]"
    "g' = (if i \<le> 1 then g else g\<lparr>bytesPos := Suc (bytesPos g)\<rparr>)"
  using assms
  by (auto simp: proofRecord_def hex32_def randomBytes32_def padLeft_idem Let_def
      split: point.splits if_splits)

lemma red_response: "redAdd e (redMul e k c) b = (k * c + b) mod curve_n e"
  by (simp add: redAdd_def redMul_def mod_add_left_eq)

lemma proofDataLoop3:
  assumes "proofDataLoop e [n0, n1, n2] c [b0, b1, b2] 0 g = Inr (pd, g')"
  obtains r0 r1 r2 where
    "pd = [r0, r1, r2]"
    "proofRecord e n0 c b0 0 g = Inr (r0, g)"
    "proofRecord e n1 c b1 1 g = Inr (r1, g)"
    "proofRecord e n2 c b2 2 g = Inr (r2, g')"
proof -
  from assms obtain r0 g0 where r0: "proofRecord e n0 c b0 0 g = Inr (r0, g0)"
    by (auto split: sum.splits)
  then have g0: "g0 = g" by (auto elim!: proofRecord_Inr)
  from assms r0 g0 obtain r1 g1 where r1: "proofRecord e n1 c b1 1 g = Inr (r1, g1)"
    by (auto split: sum.splits)
  then have g1: "g1 = g" by (auto elim!: proofRecord_Inr)
  from assms r0 g0 r1 g1 obtain r2 g2 where r2: "proofRecord e n2 c b2 2 g = Inr (r2, g2)"
    by (auto simp: numeral_2_eq_2 split: sum.splits)
  with assms r0 g0 r1 g1 have "pd = [r0, r1, r2]" "g2 = g'"
    by (auto simp: numeral_2_eq_2 split: sum.splits)
  with r0 g0 r1 g1 r2 that show thesis by blast
qed




section \<open>Facts about the constructors modelled from the specification\<close>

lemma collect_Inr:
  "collect xs = Inr ys \<Longrightarrow> length ys = length xs \<and> (\<forall>i<length xs. xs ! i = Inr (ys ! i))"
proof (induction xs arbitrary: ys)
  case Nil
  then show ?case by simp
next
  case (Cons x xs)
  from Cons.prems obtain v vs where x: "x = Inr v" and vs: "collect xs = Inr vs"
    and ys: "ys = v # vs"
    by (auto split: sum.splits)
  from Cons.IH [OF vs] show ?case
    unfolding x ys by (auto simp: nth_Cons split: nat.splits)
qed

lemma transcriptRecord_Inr:
  assumes "transcriptRecord nt kBar aBar = Inr r"
  obtains gx gy sx sy where
    "r = [hex32 kBar, hex32 aBar, hex32 gx, hex32 gy, hex32 sx, hex32 sy]"
  using assms by (auto simp: transcriptRecord_def split: point.splits)

lemma computeChallenge_less:
  "computeChallenge e sender publics notes bfs = Inr c \<Longrightarrow> 0 < curve_n e \<Longrightarrow> c < curve_n e"
  by (auto simp: computeChallenge_def keccak_finalize_def modulus_def Let_def split: sum.splits)

lemma parseInputs_Inr:
  assumes "parseInputs e notes sender m kPublic = Inr u"
  shows "parseNotes e notes = Inr ()"
    and "\<And>kp. kPublic = Some kp \<Longrightarrow> kp < curve_n e"
    and "\<And>m'. m = Some m' \<Longrightarrow> m' \<le> length notes"
  using assms
  by (auto simp: parseInputs_def split: sum.splits if_splits option.splits)

lemma parseNotes_Inr:
  "parseNotes e nts = Inr u \<Longrightarrow> nt \<in> set nts \<Longrightarrow> parseNote e nt = Inr ()"
  by (induction nts) (auto split: sum.splits)

lemma parseNote_Inr:
  assumes "parseNote e nt = Inr u"
  shows "0 < note_a nt" and "note_a nt < curve_n e" and "note_k nt \<le> K_MAX"
    and "validatePointOnCurve e (gamma nt)" and "validatePointOnCurve e (sigma nt)"
  using assms by (auto simp: parseNote_def split: if_splits)

lemma parseNotes_append:
  "parseNotes e (pre @ post) =
     (case parseNotes e pre of Inl err \<Rightarrow> Inl err | Inr u \<Rightarrow> parseNotes e post)"
  by (induction pre) (auto split: sum.splits)

lemma constructSkeleton_Inr:
  assumes "constructSkeleton e schema kBarOf notes sender m kPublic publics = Inr prf"
  obtains rollingHash c where
    "parseInputs e notes sender m kPublic = Inr ()"
    "rollingHashOf notes = Inr rollingHash"
    "computeChallenge e sender publics notes (map (schema notes rollingHash) [0..<length notes])
       = Inr c"
    "collect (map (\<lambda>i. transcriptRecord (notes ! i)
                 (kBarOf c (map (schema notes rollingHash) [0..<length notes]) i)
                 (redAdd e (redMul e (note_a (notes ! i)) c)
                    (bf_ba (map (schema notes rollingHash) [0..<length notes] ! i))))
              [0..<length notes]) = Inr (proofData prf)"
    "challenge prf = hex32 c"
  using assms
  by (auto simp: constructSkeleton_def Let_def split: sum.splits)

lemma constructSkeleton_record:
  assumes "constructSkeleton e schema kBarOf notes sender m kPublic publics = Inr pr"
    and "i < length notes"
  obtains c kBar aBar gx gy sx sy where
    "challenge pr = hex32 c"
    "kBar = kBarOf c (map (schema notes (projr (rollingHashOf notes))) [0..<length notes]) i"
    "proofData pr ! i = [hex32 kBar, hex32 aBar, hex32 gx, hex32 gy, hex32 sx, hex32 sy]"
proof -
  from assms(1) obtain rollingHash c where rh: "rollingHashOf notes = Inr rollingHash"
    and col: "collect (map (\<lambda>i. transcriptRecord (notes ! i)
                 (kBarOf c (map (schema notes rollingHash) [0..<length notes]) i)
                 (redAdd e (redMul e (note_a (notes ! i)) c)
                    (bf_ba (map (schema notes rollingHash) [0..<length notes] ! i))))
              [0..<length notes]) = Inr (proofData pr)"
    and cs: "challenge pr = hex32 c"
    by (elim constructSkeleton_Inr)
  from collect_Inr [OF col] assms(2) have
    "transcriptRecord (notes ! i)
          (kBarOf c (map (schema notes rollingHash) [0..<length notes]) i)
          (redAdd e (redMul e (note_a (notes ! i)) c)
             (bf_ba (map (schema notes rollingHash) [0..<length notes] ! i)))
        = Inr (proofData pr ! i)"
    by simp
  then obtain gx gy sx sy where "proofData pr ! i =
      [hex32 (kBarOf c (map (schema notes rollingHash) [0..<length notes]) i),
       hex32 (redAdd e (redMul e (note_a (notes ! i)) c)
             (bf_ba (map (schema notes rollingHash) [0..<length notes] ! i))),
       hex32 gx, hex32 gy, hex32 sx, hex32 sy]"
    by (rule transcriptRecord_Inr)
  with cs rh show thesis by (intro that) simp_all
qed

lemma constructSkeleton_length:
  assumes "constructSkeleton e schema kBarOf notes sender m kPublic publics = Inr pr"
  shows "length (proofData pr) = length notes"
proof -
  from assms obtain rollingHash c where
    "collect (map (\<lambda>i. transcriptRecord (notes ! i)
                 (kBarOf c (map (schema notes rollingHash) [0..<length notes]) i)
                 (redAdd e (redMul e (note_a (notes ! i)) c)
                    (bf_ba (map (schema notes rollingHash) [0..<length notes] ! i))))
              [0..<length notes]) = Inr (proofData pr)"
    by (elim constructSkeleton_Inr)
  from collect_Inr [OF this] show ?thesis by simp
qed

lemma constructSkeleton_challenge:
  assumes "constructSkeleton e schema kBarOf notes sender m kPublic publics = Inr pr"
    and "0 < curve_n e" and "curve_n e \<le> 2 ^ 256"
  shows "length (challenge pr) = 66"
proof -
  from assms(1) obtain rollingHash c where
    "computeChallenge e sender publics notes (map (schema notes rollingHash) [0..<length notes])
       = Inr c"
    and cs: "challenge pr = hex32 c"
    by (elim constructSkeleton_Inr)
  from computeChallenge_less [OF this(1) assms(2)] assms(3) have "c < 2 ^ 256" by simp
  then show ?thesis by (simp add: cs length_hex32)
qed

lemma length_concat_const:
  "(\<forall>r \<in> set rs. length r = j) \<Longrightarrow> length (concat rs) = j * length rs"
  by (induction rs) simp_all

lemma list4: "length xs = 4 \<Longrightarrow> \<exists>a b c d. xs = [a, b, c, d]"
  by (auto simp: length_Suc_conv numeral_eq_Suc)







section \<open>Running the model in the small environment\<close>

lemma mod_lin1: "((a mod m) * y + z) mod m = (a * y + z) mod (m::nat)"
proof -
  have "(a mod m * y + z) mod m = ((a mod m * y) mod m + z) mod m"
    by (rule mod_add_left_eq [symmetric])
  also have "(a mod m * y) mod m = (a * y) mod m"
    by (rule mod_mult_left_eq)
  also have "((a * y) mod m + z) mod m = (a * y + z) mod m"
    by (rule mod_add_left_eq)
  finally show ?thesis .
qed

lemma mod_lin2: "(a * y + z) mod m = (a * (y mod m) + z mod m) mod (m::nat)"
proof -
  have "(a * (y mod m) + z mod m) mod m = ((a * (y mod m)) mod m + z mod m) mod m"
    by (rule mod_add_left_eq [symmetric])
  also have "(a * (y mod m)) mod m = (a * y) mod m"
    by (rule mod_mult_right_eq)
  also have "((a * y) mod m + z mod m) mod m = (a * y + z) mod m"
    by (rule mod_add_eq)
  finally show ?thesis by simp
qed

lemma checksum_zero_run:
  "foldl checksum_step acc (replicate (Suc j) 0) =
     (acc * 31 ^ Suc j + (\<Sum>i<Suc j. 31 ^ i)) mod 1000003"
proof (induction j arbitrary: acc)
  case 0
  show ?case by (simp add: checksum_step_def)
next
  case (Suc j)
  have "foldl checksum_step acc (replicate (Suc (Suc j)) 0) =
        foldl checksum_step ((acc * 31 + 1) mod 1000003) (replicate (Suc j) 0)"
    by (simp add: checksum_step_def)
  also have "\<dots> = ((acc * 31 + 1) mod 1000003 * 31 ^ Suc j + (\<Sum>i<Suc j. 31 ^ i)) mod 1000003"
    by (rule Suc.IH)
  also have "\<dots> = ((acc * 31 + 1) * 31 ^ Suc j + (\<Sum>i<Suc j. 31 ^ i)) mod 1000003"
    by (rule mod_lin1)
  also have "(acc * 31 + 1) * 31 ^ Suc j + (\<Sum>i<Suc j. 31 ^ i) =
             acc * 31 ^ Suc (Suc j) + (\<Sum>i<Suc (Suc j). 31 ^ i)"
    by (simp add: algebra_simps)
  finally show ?case .
qed

lemma geo31: "(\<Sum>i<31. (31::nat) ^ i) mod 1000003 = 405021"
  by (simp add: lessThan_nat_numeral)

lemma geo29: "(\<Sum>i<29. (31::nat) ^ i) mod 1000003 = 31639"
  by (simp add: lessThan_nat_numeral)

lemma checksum_zeros31:
  "foldl checksum_step acc (replicate 31 0) = (acc * 150595 + 405021) mod 1000003"
proof -
  have "foldl checksum_step acc (replicate (Suc 30) 0) =
        (acc * 31 ^ Suc 30 + (\<Sum>i<Suc 30. 31 ^ i)) mod 1000003"
    by (rule checksum_zero_run)
  also have "\<dots> = (acc * (31 ^ Suc 30 mod 1000003) + (\<Sum>i<Suc 30. 31 ^ i) mod 1000003) mod 1000003"
    by (rule mod_lin2)
  also have "\<dots> = (acc * 150595 + 405021) mod 1000003"
    using geo31 by simp
  finally show ?thesis by simp
qed

lemma checksum_zeros29:
  "foldl checksum_step acc (replicate 29 0) = (acc * 949171 + 31639) mod 1000003"
proof -
  have "foldl checksum_step acc (replicate (Suc 28) 0) =
        (acc * 31 ^ Suc 28 + (\<Sum>i<Suc 28. 31 ^ i)) mod 1000003"
    by (rule checksum_zero_run)
  also have "\<dots> = (acc * (31 ^ Suc 28 mod 1000003) + (\<Sum>i<Suc 28. 31 ^ i) mod 1000003) mod 1000003"
    by (rule mod_lin2)
  also have "\<dots> = (acc * 949171 + 31639) mod 1000003"
    using geo29 by simp
  finally show ?thesis by simp
qed

lemma bytesToBN_zeros: "bytesToBN (replicate j 0 @ bs) = bytesToBN bs"
proof -
  have "foldl (\<lambda>acc b. acc * 256 + unat b) 0 (replicate j (0::byte)) = 0"
    by (induction j) simp_all
  then show ?thesis by (simp add: bytesToBN_def)
qed

lemma bytesToBN_toBytes: "bytesToBN (toBytes v) = v"
proof (induction v rule: toBytes.induct)
  case (1 v)
  show ?case
  proof (cases "v < 256")
    case True
    then show ?thesis
      by (subst toBytes.simps) (simp add: bytesToBN_def unat_of_nat)
  next
    case False
    have "unat (of_nat (v mod 256) :: byte) = v mod 256"
      by (simp add: unat_of_nat)
    with 1 False show ?thesis
      by (subst toBytes.simps) (simp add: bytesToBN_def)
  qed
qed

lemma bytesToBN_bytes32: "bytesToBN (bytes32 v) = v"
  by (simp add: bytes32_def Let_def bytesToBN_zeros bytesToBN_toBytes)

lemma bytes32_small: "v < 256 \<Longrightarrow> bytes32 v = replicate 31 0 @ [of_nat v]"
  by (simp add: bytes32_def toBytes.simps)

lemma bytes32_three:
  "bytes32 12648430 = replicate 29 0 @ [192, 255, 238]"
  "bytes32 48879 = replicate 30 0 @ [190, 239]"
  "bytes32 691005 = replicate 29 0 @ [10, 139, 61]"
  "bytes32 584649 = replicate 29 0 @ [8, 235, 201]"
  by (simp_all add: bytes32_def toBytes.simps)

lemma checksum_zeros30:
  "foldl checksum_step acc (replicate 30 0) = (acc * 424214 + 980810) mod 1000003"
proof -
  have "(\<Sum>i<30. (31::nat) ^ i) mod 1000003 = 980810"
    by (simp add: lessThan_nat_numeral)
  moreover have "foldl checksum_step acc (replicate (Suc 29) 0) =
        (acc * 31 ^ Suc 29 + (\<Sum>i<Suc 29. 31 ^ i)) mod 1000003"
    by (rule checksum_zero_run)
  moreover have "(acc * 31 ^ Suc 29 + (\<Sum>i<Suc 29. 31 ^ i)) mod 1000003 =
        (acc * (31 ^ Suc 29 mod 1000003) + (\<Sum>i<Suc 29. 31 ^ i) mod 1000003) mod 1000003"
    by (rule mod_lin2)
  ultimately show ?thesis by simp
qed

lemmas checksum_eval =
  checksum_def checksum_zeros31 checksum_zeros30 checksum_zeros29 checksum_step_def

lemmas challenge_eval =
  computeChallenge_def notePoints_def Keccak_new_def appendBN_def keccak_finalize_def
  modulus_def Let_def bytes32_small bytes32_three bytesToBN_bytes32

lemmas curve_eval = ec_mul.simps inv_mod_def mod_exp.simps

lemma test_env_simps:
  "curve_p test_env = 211" "curve_n test_env = 199" "bn_h test_env = Point 49 97"
  "point_mul test_env = ec_mul 211" "point_add test_env = ec_add 211"
  "keccak256 test_env = checksum"
  by (simp_all add: test_env_def)

lemma test_rng_simps:
  "scalarTape test_rng j = (37 * j + 12) mod 199" "scalarPos test_rng = 0"
  "bytesTape test_rng j = replicate 30 0 @ [1, of_nat (44 + j)]" "bytesPos test_rng = 0"
  "scalarTape test_rng2 j = (91 * j + 3) mod 199" "scalarPos test_rng2 = 0"
  "bytesTape test_rng2 = bytesTape test_rng" "bytesPos test_rng2 = 0"
  by (simp_all add: test_rng_def test_rng2_def)

lemma test_parse: "parseInputs test_env test_notes sd None None = Inr ()"
  by (simp add: parseInputs_def parseNote_def test_env_simps test_notes_def K_MAX_def)

lemmas transcript_eval =
  rollingHashOf_def notePoints_def Keccak_new_def appendBN_def transcriptOf_def

lemma test_rollingHash: "rollingHashOf test_notes = Inr test_rollingHash0"
  by (simp add: transcript_eval test_notes_def test_rollingHash0_def)

lemma test_finalize1:
  "keccak_finalize test_env groupReduction test_rollingHash0 = (77, \<lparr>kc_data = [bytes32 691005]\<rparr>)"
proof -
  have "checksum (concat (kc_data test_rollingHash0)) = bytes32 691005"
    by (simp add: test_rollingHash0_def transcriptOf_def bytes32_small checksum_eval)
  then show ?thesis
    by (simp add: keccak_finalize_def Let_def modulus_def test_env_simps bytesToBN_bytes32)
qed

lemma test_finalize2:
  "keccak_finalize test_env groupReduction \<lparr>kc_data = [bytes32 691005]\<rparr>
     = (61, \<lparr>kc_data = [bytes32 248612]\<rparr>)"
proof -
  have "checksum (bytes32 691005) = bytes32 248612"
    by (simp add: bytes32_three checksum_eval)
  then show ?thesis
    by (simp add: keccak_finalize_def Let_def modulus_def test_env_simps bytesToBN_bytes32)
qed

lemma test_points:
  "ec_add 211 (ec_mul 211 (Point 9 164) 49) (ec_mul 211 (Point 49 97) 12) = Point 35 16"
  "ec_add 211 (ec_mul 211 (Point 118 191) 118) (ec_mul 211 (Point 49 97) 55) = Point 72 186"
  "ec_add 211 (ec_mul 211 (Point 32 53) 63) (ec_mul 211 (Point 49 97) 9) = Point 161 166"
  "ec_add 211 (ec_mul 211 (Point 32 53) 73) (ec_mul 211 (Point 49 97) 181) = Point 58 28"
  by (simp_all add: curve_eval)

lemma test_constructBlindingFactors:
  "constructBlindingFactors test_env test_notes test_rollingHash0 test_rng
     = (test_blindingFactors, test_rng\<lparr>scalarPos := 6\<rparr>)"
  unfolding test_notes_def blindingFactors3
  by (simp add: test_finalize1 test_finalize2 test_blindingFactors_def test_env_simps
      test_rng_simps redMul_def redSub_def test_points)

lemma test_computeChallenge:
  "computeChallenge test_env test_sender [] test_notes test_blindingFactors = Inr 39"
  by (simp add: challenge_eval test_notes_def test_blindingFactors_def test_sender_def
      test_env_simps checksum_eval)

lemma proofRecord_eval:
  assumes "gamma nt = Point gx gy" and "sigma nt = Point sx sy"
  shows "proofRecord e nt c bf i g =
     Inr ([hex32 (if i \<le> 1 then redAdd e (redMul e (note_k nt) c) (bf_bk bf)
                  else bytesToBN (bytesTape g (bytesPos g)) mod curve_n e),
           hex32 (redAdd e (redMul e (note_a nt) c) (bf_ba bf)),
           hex32 gx, hex32 gy, hex32 sx, hex32 sy],
          if i \<le> 1 then g else g\<lparr>bytesPos := Suc (bytesPos g)\<rparr>)"
  using assms
  by (simp add: proofRecord_def hex32_def randomBytes32_def padLeft_idem Let_def)

lemma test_filler: "bytesToBN (replicate 30 0 @ [1, 44]) mod 199 = 101"
  by (simp add: bytesToBN_zeros) (simp add: bytesToBN_def)

lemma test_proofData:
  "proofDataLoop test_env test_notes 39 test_blindingFactors 0 (test_rng\<lparr>scalarPos := 6\<rparr>)
     = Inr (proofData test_proof, test_rng\<lparr>scalarPos := 6, bytesPos := 1\<rparr>)"
  by (simp add: test_notes_def test_blindingFactors_def proofRecord_eval test_rng_simps
      test_env_simps test_filler redAdd_def redMul_def test_proof_def)

lemma test_constructProof:
  "privateRange_constructProof test_env test_notes test_sender test_rng
     = Inr (test_proof, test_rng\<lparr>scalarPos := 6, bytesPos := 1\<rparr>)"
  by (simp add: privateRange_constructProof_def test_parse test_rollingHash
      test_constructBlindingFactors test_computeChallenge test_proofData)
     (simp add: test_proof_def hex32_def)

lemma test_parse2: "parseInputs test_env test_notes2 sd None None = Inr ()"
  by (simp add: parseInputs_def parseNote_def test_env_simps test_notes2_def K_MAX_def)

lemma test_rollingHash2: "rollingHashOf test_notes2 = Inr test_rollingHash2"
  by (simp add: transcript_eval test_notes2_def test_rollingHash2_def)

lemma test_finalize3:
  "keccak_finalize test_env groupReduction test_rollingHash2 = (186, \<lparr>kc_data = [bytes32 584649]\<rparr>)"
proof -
  have "checksum (concat (kc_data test_rollingHash2)) = bytes32 584649"
    by (simp add: test_rollingHash2_def transcriptOf_def bytes32_small checksum_eval)
  then show ?thesis
    by (simp add: keccak_finalize_def Let_def modulus_def test_env_simps bytesToBN_bytes32)
qed

lemma test_finalize4:
  "keccak_finalize test_env groupReduction \<lparr>kc_data = [bytes32 584649]\<rparr>
     = (61, \<lparr>kc_data = [bytes32 249806]\<rparr>)"
proof -
  have "checksum (bytes32 584649) = bytes32 249806"
    by (simp add: bytes32_three checksum_eval)
  then show ?thesis
    by (simp add: keccak_finalize_def Let_def modulus_def test_env_simps bytesToBN_bytes32)
qed

lemma test_points2:
  "ec_add 211 (ec_mul 211 (Point 118 191) 94) (ec_mul 211 (Point 49 97) 3) = Point 118 191"
  "ec_add 211 (ec_mul 211 (Point 9 164) 193) (ec_mul 211 (Point 49 97) 182) = Point 205 118"
  "ec_add 211 (ec_mul 211 (Point 138 80) 42) (ec_mul 211 (Point 49 97) 99) = Point 130 55"
  by (simp_all add: curve_eval)

lemma test_constructBlindingFactors2:
  "constructBlindingFactors test_env test_notes2 test_rollingHash2 test_rng2
     = (test_blindingFactors2, test_rng2\<lparr>scalarPos := 6\<rparr>)"
  unfolding test_notes2_def blindingFactors3
  by (simp add: test_finalize3 test_finalize4 test_blindingFactors2_def test_env_simps
      test_rng_simps redMul_def redSub_def test_points2)

lemma test_computeChallenge2:
  "computeChallenge test_env test_sender2 [] test_notes2 test_blindingFactors2 = Inr 34"
  by (simp add: challenge_eval test_notes2_def test_blindingFactors2_def test_sender2_def
      test_env_simps checksum_eval)

lemma test_proofData2:
  "proofDataLoop test_env test_notes2 34 test_blindingFactors2 0 (test_rng2\<lparr>scalarPos := 6\<rparr>)
     = Inr (proofData test_proof2, test_rng2\<lparr>scalarPos := 6, bytesPos := 1\<rparr>)"
  by (simp add: test_notes2_def test_blindingFactors2_def proofRecord_eval test_rng_simps
      test_env_simps test_filler redAdd_def redMul_def test_proof2_def)

lemma test_constructProof2:
  "privateRange_constructProof test_env test_notes2 test_sender2 test_rng2
     = Inr (test_proof2, test_rng2\<lparr>scalarPos := 6, bytesPos := 1\<rparr>)"
  by (simp add: privateRange_constructProof_def test_parse2 test_rollingHash2
      test_constructBlindingFactors2 test_computeChallenge2 test_proofData2)
     (simp add: test_proof2_def hex32_def)

lemma test_encode:
  "encodePrivateRangeTransaction test_env test_coder [test_notes ! 0] [test_notes ! 1]
     [test_notes ! 2] test_sender test_rng
     = Inr (test_transaction, test_rng\<lparr>scalarPos := 6, bytesPos := 1\<rparr>)"
proof -
  have "[test_notes ! 0] @ [test_notes ! 1] @ [test_notes ! 2] = test_notes"
    by (simp add: test_notes_def)
  moreover have "length (hex32 1) = 66" by (rule length_hex32) simp
  moreover have "challenge test_proof = hex32 39" by (simp add: test_proof_def)
  ultimately show ?thesis
    using test_constructProof
    by (simp add: encodePrivateRangeTransaction_def Let_def test_coder_def ZERO_ADDRESS_def
        test_transaction_def)
qed

lemma upt_small: "[0..<3] = [0, 1, 2]" "[0..<5] = [0, 1, 2, 3, 4]"
  by (simp_all add: upt_rec)

lemma transcriptRecord_eval:
  "gamma nt = Point gx gy \<Longrightarrow> sigma nt = Point sx sy \<Longrightarrow>
   transcriptRecord nt kBar aBar = Inr (map hex32 [kBar, aBar, gx, gy, sx, sy])"
  by (simp add: transcriptRecord_def)

lemma test_joinSplit_parse:
  "parseInputs test_env test_joinSplitNotes sd (Some 2) (Some 0) = Inr ()"
  by (simp add: parseInputs_def parseNote_def test_env_simps test_joinSplitNotes_def K_MAX_def)

lemma test_joinSplit_rollingHash:
  "rollingHashOf test_joinSplitNotes = Inr (transcriptOf
     [155, 19, 196, 2, 97, 177, 40, 131, 78, 207, 69, 197, 192, 23, 184, 187, 74, 188, 146, 10])"
  by (simp add: transcript_eval test_joinSplitNotes_def)

lemma test_joinSplit_points:
  "ec_add 211 (ec_mul 211 (Point 155 19) 12) (ec_mul 211 (Point 49 97) 49) = Point 47 196"
  "ec_add 211 (ec_mul 211 (Point 97 177) 86) (ec_mul 211 (Point 49 97) 123) = Point 96 4"
  "ec_add 211 (ec_mul 211 (Point 78 207) 160) (ec_mul 211 (Point 49 97) 197) = Point 65 31"
  "ec_add 211 (ec_mul 211 (Point 192 23) 35) (ec_mul 211 (Point 49 97) 72) = Point 1 2"
  "ec_add 211 (ec_mul 211 (Point 74 188) 109) (ec_mul 211 (Point 49 97) 146) = Point 131 10"
  by (simp_all add: curve_eval)

lemma test_joinSplit_blinding:
  "map (test_schema test_joinSplitNotes rh) [0..<5] =
     [\<lparr>bf_bk = 12, bf_ba = 49, bf_B = Point 47 196\<rparr>,
      \<lparr>bf_bk = 86, bf_ba = 123, bf_B = Point 96 4\<rparr>,
      \<lparr>bf_bk = 160, bf_ba = 197, bf_B = Point 65 31\<rparr>,
      \<lparr>bf_bk = 35, bf_ba = 72, bf_B = Point 1 2\<rparr>,
      \<lparr>bf_bk = 109, bf_ba = 146, bf_B = Point 131 10\<rparr>]"
  by (simp add: upt_small test_schema_def standardBlinding_def test_env_simps test_rng_simps
      test_joinSplitNotes_def test_joinSplit_points)

lemma test_joinSplit_challenge:
  "computeChallenge test_env test_sender [0, 2] test_joinSplitNotes
     [\<lparr>bf_bk = 12, bf_ba = 49, bf_B = Point 47 196\<rparr>,
      \<lparr>bf_bk = 86, bf_ba = 123, bf_B = Point 96 4\<rparr>,
      \<lparr>bf_bk = 160, bf_ba = 197, bf_B = Point 65 31\<rparr>,
      \<lparr>bf_bk = 35, bf_ba = 72, bf_B = Point 1 2\<rparr>,
      \<lparr>bf_bk = 109, bf_ba = 146, bf_B = Point 131 10\<rparr>] = Inr 128"
  by (simp add: challenge_eval test_joinSplitNotes_def test_sender_def test_env_simps
      checksum_eval)

lemma test_joinSplit:
  "joinSplit_constructProof test_env test_schema test_joinSplitNotes 2 test_sender 0
     = Inr test_joinSplitProof"
proof -
  have len: "length test_joinSplitNotes = 5" by (simp add: test_joinSplitNotes_def)
  show ?thesis
    by (simp only: joinSplit_constructProof_def constructSkeleton_def test_joinSplit_parse
        test_joinSplit_rollingHash len test_joinSplit_blinding test_joinSplit_challenge
        Let_def sum.case)
       (simp add: upt_small test_joinSplitNotes_def transcriptRecord_eval joinSplit_kBar_def
        response_kBar_def redAdd_def redMul_def test_env_simps test_joinSplitProof_def)
qed

lemma test_dividend_parse:
  "parseInputs test_env test_dividendNotes sd None None = Inr ()"
  by (simp add: parseInputs_def parseNote_def test_env_simps test_dividendNotes_def K_MAX_def)

lemma test_dividend_rollingHash:
  "rollingHashOf test_dividendNotes = Inr (transcriptOf
     [149, 152, 96, 207, 115, 74, 138, 131, 139, 15, 109, 114])"
  by (simp add: transcript_eval test_dividendNotes_def)

lemma test_dividend_points:
  "ec_add 211 (ec_mul 211 (Point 149 152) 12) (ec_mul 211 (Point 49 97) 49) = Point 86 59"
  "ec_add 211 (ec_mul 211 (Point 115 74) 86) (ec_mul 211 (Point 49 97) 123) = Point 47 15"
  "ec_add 211 (ec_mul 211 (Point 139 15) 160) (ec_mul 211 (Point 49 97) 197) = Point 187 152"
  by (simp_all add: curve_eval)

lemma test_dividend_blinding:
  "map (test_schema test_dividendNotes rh) [0..<3] =
     [\<lparr>bf_bk = 12, bf_ba = 49, bf_B = Point 86 59\<rparr>,
      \<lparr>bf_bk = 86, bf_ba = 123, bf_B = Point 47 15\<rparr>,
      \<lparr>bf_bk = 160, bf_ba = 197, bf_B = Point 187 152\<rparr>]"
  by (simp add: upt_small test_schema_def standardBlinding_def test_env_simps test_rng_simps
      test_dividendNotes_def test_dividend_points)

lemma test_dividend_challenge:
  "computeChallenge test_env test_sender [100, 5] test_dividendNotes
     [\<lparr>bf_bk = 12, bf_ba = 49, bf_B = Point 86 59\<rparr>,
      \<lparr>bf_bk = 86, bf_ba = 123, bf_B = Point 47 15\<rparr>,
      \<lparr>bf_bk = 160, bf_ba = 197, bf_B = Point 187 152\<rparr>] = Inr 78"
  by (simp add: challenge_eval test_dividendNotes_def test_sender_def test_env_simps
      checksum_eval)

lemma test_dividend:
  "dividend_constructProof test_env test_schema (response_kBar test_env test_dividendNotes)
     test_dividendNotes 100 5 test_sender = Inr test_dividendResult"
proof -
  have len: "length test_dividendNotes = 3" by (simp add: test_dividendNotes_def)
  show ?thesis
    by (simp only: dividend_constructProof_def constructSkeleton_def test_dividend_parse
        test_dividend_rollingHash len test_dividend_blinding test_dividend_challenge
        Let_def sum.case)
       (simp add: upt_small test_dividendNotes_def transcriptRecord_eval
        response_kBar_def redAdd_def redMul_def test_env_simps test_dividendResult_def)
qed

lemma test_swap_points:
  "ec_add 211 (ec_mul 211 (Point 112 84) 12) (ec_mul 211 (Point 49 97) 49) = Point 53 114"
  "ec_add 211 (ec_mul 211 (Point 166 175) 86) (ec_mul 211 (Point 49 97) 123) = Point 142 77"
  "ec_add 211 (ec_mul 211 (Point 160 55) 12) (ec_mul 211 (Point 49 97) 197) = Point 150 144"
  "ec_add 211 (ec_mul 211 (Point 92 177) 86) (ec_mul 211 (Point 49 97) 72) = Point 1 209"
  by (simp_all add: curve_eval)

lemma test_swap_rollingHash:
  "rollingHashOf test_swapNotes = Inr (transcriptOf
     [112, 84, 111, 96, 166, 175, 91, 127, 160, 55, 142, 77, 92, 177, 207, 19])"
  by (simp add: transcript_eval test_swapNotes_def)

lemma test_swap_loop:
  "swapBlindingLoop test_env test_swapNotes 0 [] test_rng
     = (test_swapBlindingFactors, test_rng\<lparr>scalarPos := 8\<rparr>)"
  by (simp add: test_swapNotes_def randomGroupScalar_def test_rng_simps test_env_simps
      test_swap_points test_swapBlindingFactors_def numeral_2_eq_2 numeral_3_eq_3)

lemma test_swap:
  "getBlindingFactorsAndChallenge test_env test_swapNotes (transcriptOf
     [112, 84, 111, 96, 166, 175, 91, 127, 160, 55, 142, 77, 92, 177, 207, 19]) test_rng
     = Inr (test_swapBlindingFactors, 153, test_rng\<lparr>scalarPos := 8\<rparr>)"
  by (simp add: getBlindingFactorsAndChallenge_def test_swap_loop)
     (simp add: test_swapBlindingFactors_def transcriptOf_def appendBN_def keccak_finalize_def
      modulus_def Let_def bytes32_small bytesToBN_bytes32 test_env_simps checksum_eval)






lemma test_lengths:
  "length test_notes = 3" "length test_notes2 = 3" "length test_joinSplitNotes = 5"
  "length test_swapNotes = 4" "length test_dividendNotes = 3"
  by (simp_all add: test_notes_def test_notes2_def test_joinSplitNotes_def test_swapNotes_def
      test_dividendNotes_def)

lemma test_joinSplit_parseNotes: "parseNotes test_env test_joinSplitNotes = Inr ()"
  using test_joinSplit_parse by (rule parseInputs_Inr(1))

lemma bn128_n_bounds: "0 < bn128_n \<and> bn128_n \<le> 2 ^ 256 \<and> bn128_n < bn128_p"
  by (simp add: bn128_n_def bn128_p_def)

section \<open>The claims\<close>

text \<open>
  Claim C1. In a private range proof constructed over three notes, the first two
  records hold \<open>kBar = k * c + bk\<close> modulo \<open>n\<close> and all three records hold
  \<open>aBar = a * c + ba\<close> modulo \<open>n\<close>, where \<open>c\<close> is the challenge that
  \<open>computeChallenge\<close> returns, the one the proof reports, and \<open>bk\<close>, \<open>ba\<close> are the
  blinding scalars of the note. The slots are the strings \<open>hex32\<close> of these numbers,
  and read back as hexadecimal numbers they are these numbers.
\<close>

theorem privateRange_responses:
  assumes "length notes = 3"
    and "privateRange_constructProof e notes sender g = Inr (prf, g')"
    and "rollingHashOf notes = Inr rh"
    and "constructBlindingFactors e notes rh g = (bfs, g1)"
    and "computeChallenge e sender [] notes bfs = Inr c"
  shows "challenge prf = hex32 c \<and>
         (\<forall>i<2. proofData prf ! i ! 0 =
                  hex32 ((note_k (notes ! i) * c + bf_bk (bfs ! i)) mod curve_n e)) \<and>
         (\<forall>i<3. proofData prf ! i ! 1 =
                  hex32 ((note_a (notes ! i) * c + bf_ba (bfs ! i)) mod curve_n e)) \<and>
         (\<forall>i<2. parseHex (drop 2 (proofData prf ! i ! 0)) =
                  (note_k (notes ! i) * c + bf_bk (bfs ! i)) mod curve_n e) \<and>
         (\<forall>i<3. parseHex (drop 2 (proofData prf ! i ! 1)) =
                  (note_a (notes ! i) * c + bf_ba (bfs ! i)) mod curve_n e)"
proof -
  from assms(1) obtain n0 n1 n2 where nts: "notes = [n0, n1, n2]"
    using list3 by blast
  from assms(4) obtain b0 b1 b2 where bfs: "bfs = [b0, b1, b2]"
    unfolding nts blindingFactors3 by (auto simp: Let_def)
  from assms(2) obtain pd where pd: "proofDataLoop e notes c bfs 0 g1 = Inr (pd, g')"
    and prf_eq: "prf = \<lparr>proofData = pd, challenge = hex32 c\<rparr>"
    using assms(3-5) by (elim constructProof_Inr) simp
  from pd obtain r0 r1 r2 where rs: "pd = [r0, r1, r2]"
    and r0: "proofRecord e n0 c b0 0 g1 = Inr (r0, g1)"
    and r1: "proofRecord e n1 c b1 1 g1 = Inr (r1, g1)"
    and r2: "proofRecord e n2 c b2 2 g1 = Inr (r2, g')"
    unfolding nts bfs by (elim proofDataLoop3) 
  have k0: "r0 ! 0 = hex32 ((note_k n0 * c + bf_bk b0) mod curve_n e)"
    and a0: "r0 ! 1 = hex32 ((note_a n0 * c + bf_ba b0) mod curve_n e)"
    using r0 by (auto elim!: proofRecord_Inr simp: red_response)
  have k1: "r1 ! 0 = hex32 ((note_k n1 * c + bf_bk b1) mod curve_n e)"
    and a1: "r1 ! 1 = hex32 ((note_a n1 * c + bf_ba b1) mod curve_n e)"
    using r1 by (auto elim!: proofRecord_Inr simp: red_response)
  have a2: "r2 ! 1 = hex32 ((note_a n2 * c + bf_ba b2) mod curve_n e)"
    using r2 by (auto elim!: proofRecord_Inr simp: red_response)
  have two: "\<And>i. i < 2 \<longleftrightarrow> i = 0 \<or> i = Suc 0" by auto
  have three: "\<And>i. i < 3 \<longleftrightarrow> i = 0 \<or> i = Suc 0 \<or> i = 2" by auto
  show ?thesis
    using k0 a0 k1 a1 a2 by (simp add: prf_eq rs nts bfs two three parseHex_hex32)
qed

text \<open>
  The proof over the three test notes: the challenge is 39, and the first response is
  \<open>(10 * 39 + 49) mod 199\<close>.
\<close>

theorem privateRange_responses_witness:
  "length test_notes = 3 \<and>
   privateRange_constructProof test_env test_notes test_sender test_rng
     = Inr (test_proof, test_rng\<lparr>scalarPos := 6, bytesPos := 1\<rparr>) \<and>
   rollingHashOf test_notes = Inr test_rollingHash0 \<and>
   constructBlindingFactors test_env test_notes test_rollingHash0 test_rng
     = (test_blindingFactors, test_rng\<lparr>scalarPos := 6\<rparr>) \<and>
   computeChallenge test_env test_sender [] test_notes test_blindingFactors = Inr 39 \<and>
   challenge test_proof = hex32 39 \<and>
   proofData test_proof ! 0 ! 0 = hex32 ((10 * 39 + 49) mod 199) \<and>
   proofData test_proof ! 1 ! 0 = hex32 ((4 * 39 + 123) mod 199) \<and>
   proofData test_proof ! 0 ! 1 = hex32 ((23 * 39 + 12) mod 199) \<and>
   proofData test_proof ! 1 ! 1 = hex32 ((45 * 39 + 86) mod 199) \<and>
   proofData test_proof ! 2 ! 1 = hex32 ((67 * 39 + 160) mod 199) \<and>
   parseHex (drop 2 (proofData test_proof ! 0 ! 0)) = 41 \<and>
   parseHex (drop 2 (proofData test_proof ! 1 ! 0)) = 80 \<and>
   parseHex (drop 2 (proofData test_proof ! 0 ! 1)) = 113 \<and>
   parseHex (drop 2 (proofData test_proof ! 1 ! 1)) = 50 \<and>
   parseHex (drop 2 (proofData test_proof ! 2 ! 1)) = 186"
proof -
  note run = test_lengths(1) test_constructProof test_rollingHash test_constructBlindingFactors
    test_computeChallenge
  have vals: "note_k (test_notes ! 0) = 10" "note_k (test_notes ! 1) = 4"
    "note_a (test_notes ! 0) = 23" "note_a (test_notes ! 1) = 45" "note_a (test_notes ! 2) = 67"
    "bf_bk (test_blindingFactors ! 0) = 49" "bf_bk (test_blindingFactors ! 1) = 123"
    "bf_ba (test_blindingFactors ! 0) = 12" "bf_ba (test_blindingFactors ! 1) = 86"
    "bf_ba (test_blindingFactors ! 2) = 160" "curve_n test_env = 199"
    by (simp_all add: test_notes_def test_blindingFactors_def test_env_simps)
  from privateRange_responses [OF run]
  have c: "challenge test_proof = hex32 39"
    and k: "\<And>i. i < 2 \<Longrightarrow> proofData test_proof ! i ! 0 =
            hex32 ((note_k (test_notes ! i) * 39 + bf_bk (test_blindingFactors ! i))
                     mod curve_n test_env)"
    and a: "\<And>i. i < 3 \<Longrightarrow> proofData test_proof ! i ! 1 =
            hex32 ((note_a (test_notes ! i) * 39 + bf_ba (test_blindingFactors ! i))
                     mod curve_n test_env)"
    and pk: "\<And>i. i < 2 \<Longrightarrow> parseHex (drop 2 (proofData test_proof ! i ! 0)) =
            (note_k (test_notes ! i) * 39 + bf_bk (test_blindingFactors ! i))
              mod curve_n test_env"
    and pa: "\<And>i. i < 3 \<Longrightarrow> parseHex (drop 2 (proofData test_proof ! i ! 1)) =
            (note_a (test_notes ! i) * 39 + bf_ba (test_blindingFactors ! i))
              mod curve_n test_env"
    by blast+
  from pk [of 0] pk [of 1] pa [of 0] pa [of 1] pa [of 2]
  have numbers: "parseHex (drop 2 (proofData test_proof ! 0 ! 0)) = 41"
    "parseHex (drop 2 (proofData test_proof ! 1 ! 0)) = 80"
    "parseHex (drop 2 (proofData test_proof ! 0 ! 1)) = 113"
    "parseHex (drop 2 (proofData test_proof ! 1 ! 1)) = 50"
    "parseHex (drop 2 (proofData test_proof ! 2 ! 1)) = 186"
    unfolding vals by simp_all
  from k [of 0] k [of 1] a [of 0] a [of 1] a [of 2]
  have "proofData test_proof ! 0 ! 0 = hex32 ((10 * 39 + 49) mod 199)"
    "proofData test_proof ! 1 ! 0 = hex32 ((4 * 39 + 123) mod 199)"
    "proofData test_proof ! 0 ! 1 = hex32 ((23 * 39 + 12) mod 199)"
    "proofData test_proof ! 1 ! 1 = hex32 ((45 * 39 + 86) mod 199)"
    "proofData test_proof ! 2 ! 1 = hex32 ((67 * 39 + 160) mod 199)"
    unfolding vals by simp_all
  with run c numbers show ?thesis by simp
qed

text \<open>
  Claim C2, as the code has it. Over three notes, \<open>B_0 = bk_0 * gamma_0 + ba_0 * h\<close>
  and \<open>B_1 = (bk_1 * x) * gamma_1 + (ba_1 * x) * h\<close>, where \<open>x\<close> is the rolling hash
  over every note's points, finalised modulo \<open>n\<close>. The third point is
  \<open>B_2 = ((bk_0 - bk_1) * x') * gamma_2 + (ba_2 * x') * h\<close> with the next value \<open>x'\<close>
  of the rolling hash: \<open>constructBlindingFactors\<close> finalises the transcript a second
  time at \<open>i = 2\<close>, after the first finalisation has replaced its contents by the
  digest, so \<open>x'\<close> is the digest of the digest, reduced modulo \<open>n\<close>.
\<close>

theorem blinding_points:
  assumes "length notes = 3" and "rollingHashOf notes = Inr rh"
    and "constructBlindingFactors e notes rh g = (bfs, g')"
    and "x = fst (keccak_finalize e groupReduction rh)"
    and "x' = fst (keccak_finalize e groupReduction (snd (keccak_finalize e groupReduction rh)))"
  shows "bf_B (bfs ! 0) =
           point_add e (point_mul e (gamma (notes ! 0)) (bf_bk (bfs ! 0)))
                       (point_mul e (bn_h e) (bf_ba (bfs ! 0))) \<and>
         bf_B (bfs ! 1) =
           point_add e (point_mul e (gamma (notes ! 1)) (redMul e (bf_bk (bfs ! 1)) x))
                       (point_mul e (bn_h e) (redMul e (bf_ba (bfs ! 1)) x)) \<and>
         bf_B (bfs ! 2) =
           point_add e (point_mul e (gamma (notes ! 2))
                          (redMul e (redSub e (bf_bk (bfs ! 0)) (bf_bk (bfs ! 1))) x'))
                       (point_mul e (bn_h e) (redMul e (bf_ba (bfs ! 2)) x')) \<and>
         x = bytesToBN (keccak256 e (concat (kc_data rh))) mod curve_n e \<and>
         x' = bytesToBN (keccak256 e (keccak256 e (concat (kc_data rh)))) mod curve_n e"
proof -
  from assms(1) obtain n0 n1 n2 where nts: "notes = [n0, n1, n2]" using list3 by blast
  have x: "x = bytesToBN (keccak256 e (concat (kc_data rh))) mod curve_n e"
    and x': "x' = bytesToBN (keccak256 e (keccak256 e (concat (kc_data rh)))) mod curve_n e"
    by (simp_all add: assms(4,5) keccak_finalize_def modulus_def Let_def)
  from assms(3) show ?thesis
    unfolding nts blindingFactors3 using x x'
    by (auto simp: Let_def assms(4,5))
qed

text \<open>
  With one \<open>x\<close> for both points, as the claim is worded, the equation for \<open>B_2\<close>
  fails on the three test notes: there \<open>x = 77\<close> and \<open>x' = 61\<close>, the code returns
  \<open>B_2 = (161, 166)\<close>, and the formula with \<open>x\<close> gives \<open>(58, 28)\<close>.
\<close>

theorem blinding_points_counterexample:
  "rollingHashOf test_notes = Inr test_rollingHash0 \<and>
   \<not> (bf_B (fst (constructBlindingFactors test_env test_notes test_rollingHash0 test_rng) ! 0) =
        point_add test_env
          (point_mul test_env (gamma (test_notes ! 0))
             (bf_bk (fst (constructBlindingFactors test_env test_notes test_rollingHash0 test_rng) ! 0)))
          (point_mul test_env (bn_h test_env)
             (bf_ba (fst (constructBlindingFactors test_env test_notes test_rollingHash0 test_rng) ! 0))) \<and>
      bf_B (fst (constructBlindingFactors test_env test_notes test_rollingHash0 test_rng) ! 1) =
        point_add test_env
          (point_mul test_env (gamma (test_notes ! 1))
             (redMul test_env
                (bf_bk (fst (constructBlindingFactors test_env test_notes test_rollingHash0 test_rng) ! 1))
                (fst (keccak_finalize test_env groupReduction test_rollingHash0))))
          (point_mul test_env (bn_h test_env)
             (redMul test_env
                (bf_ba (fst (constructBlindingFactors test_env test_notes test_rollingHash0 test_rng) ! 1))
                (fst (keccak_finalize test_env groupReduction test_rollingHash0)))) \<and>
      bf_B (fst (constructBlindingFactors test_env test_notes test_rollingHash0 test_rng) ! 2) =
        point_add test_env
          (point_mul test_env (gamma (test_notes ! 2))
             (redMul test_env
                (redSub test_env
                   (bf_bk (fst (constructBlindingFactors test_env test_notes test_rollingHash0 test_rng) ! 0))
                   (bf_bk (fst (constructBlindingFactors test_env test_notes test_rollingHash0 test_rng) ! 1)))
                (fst (keccak_finalize test_env groupReduction test_rollingHash0))))
          (point_mul test_env (bn_h test_env)
             (redMul test_env
                (bf_ba (fst (constructBlindingFactors test_env test_notes test_rollingHash0 test_rng) ! 2))
                (fst (keccak_finalize test_env groupReduction test_rollingHash0)))))"
proof -
  have cbf: "fst (constructBlindingFactors test_env test_notes test_rollingHash0 test_rng)
      = test_blindingFactors"
    by (simp add: test_constructBlindingFactors)
  have x: "fst (keccak_finalize test_env groupReduction test_rollingHash0) = 77"
    by (simp add: test_finalize1)
  have actual: "bf_B (test_blindingFactors ! 2) = Point 161 166"
    by (simp add: test_blindingFactors_def)
  have claimed: "point_add test_env
          (point_mul test_env (gamma (test_notes ! 2))
             (redMul test_env
                (redSub test_env (bf_bk (test_blindingFactors ! 0))
                   (bf_bk (test_blindingFactors ! 1))) 77))
          (point_mul test_env (bn_h test_env)
             (redMul test_env (bf_ba (test_blindingFactors ! 2)) 77)) = Point 58 28"
    by (simp add: test_blindingFactors_def test_notes_def test_env_simps redMul_def redSub_def
        test_points)
  show ?thesis
    unfolding cbf x claimed actual using test_rollingHash by simp
qed

text \<open>
  The blinding factors of the three test notes.
\<close>

theorem blinding_points_witness:
  "length test_notes = 3 \<and> rollingHashOf test_notes = Inr test_rollingHash0 \<and>
   constructBlindingFactors test_env test_notes test_rollingHash0 test_rng
     = (test_blindingFactors, test_rng\<lparr>scalarPos := 6\<rparr>) \<and>
   77 = fst (keccak_finalize test_env groupReduction test_rollingHash0) \<and>
   61 = fst (keccak_finalize test_env groupReduction
               (snd (keccak_finalize test_env groupReduction test_rollingHash0))) \<and>
   bf_B (test_blindingFactors ! 2) =
     point_add test_env
       (point_mul test_env (gamma (test_notes ! 2))
          (redMul test_env (redSub test_env (bf_bk (test_blindingFactors ! 0))
                              (bf_bk (test_blindingFactors ! 1))) 61))
       (point_mul test_env (bn_h test_env) (redMul test_env (bf_ba (test_blindingFactors ! 2)) 61)) \<and>
   61 = bytesToBN (keccak256 test_env (keccak256 test_env (concat (kc_data test_rollingHash0))))
          mod curve_n test_env"
proof -
  have x: "77 = fst (keccak_finalize test_env groupReduction test_rollingHash0)"
    by (simp add: test_finalize1)
  have x': "61 = fst (keccak_finalize test_env groupReduction
               (snd (keccak_finalize test_env groupReduction test_rollingHash0)))"
    by (simp add: test_finalize1 test_finalize2)
  from blinding_points [OF test_lengths(1) test_rollingHash test_constructBlindingFactors x x']
    test_lengths(1) test_rollingHash test_constructBlindingFactors x x'
  show ?thesis by blast
qed

text \<open>
  Claim C3. The join-split constructor fails with the named error of the malformation:
  \<open>KPUBLIC_MALFORMED\<close> when \<open>kPublic\<close> is not below \<open>n\<close>, \<open>M_TOO_BIG\<close> when \<open>m\<close> exceeds
  the number of notes, \<open>NOT_ON_CURVE\<close> when the x coordinate of a note's \<open>gamma\<close> is not
  below \<open>p\<close>, \<open>POINT_AT_INFINITY\<close> when a note's \<open>gamma\<close> is the identity,
  \<open>VIEWING_KEY_MALFORMED\<close> when a note's viewing key is 0 and \<open>NOTE_VALUE_TOO_BIG\<close> when
  a note's value is \<open>K_MAX + 1\<close>; never \<open>TypeError\<close>. The input is valid otherwise: the
  notes before the malformed one pass their checks, and so do the other fields of the
  malformed note that are checked before the bad one.
\<close>

theorem joinSplit_named_errors:
  assumes "parseNotes e pre = Inr ()"
  shows
    "(parseNotes e notes = Inr () \<and> \<not> kPublic < curve_n e \<longrightarrow>
        joinSplit_constructProof e schema notes m sender kPublic = Inl KPUBLIC_MALFORMED) \<and>
     (parseNotes e notes = Inr () \<and> kPublic < curve_n e \<and> length notes < m \<longrightarrow>
        joinSplit_constructProof e schema notes m sender kPublic = Inl M_TOO_BIG) \<and>
     (gamma nt = Point x y \<and> curve_p e \<le> x \<and> sigma nt \<noteq> Infinity \<and>
      0 < note_a nt \<and> note_a nt < curve_n e \<and> note_k nt \<le> K_MAX \<longrightarrow>
        joinSplit_constructProof e schema (pre @ nt # post) m sender kPublic = Inl NOT_ON_CURVE) \<and>
     (gamma nt = Infinity \<and> 0 < note_a nt \<and> note_a nt < curve_n e \<and> note_k nt \<le> K_MAX \<longrightarrow>
        joinSplit_constructProof e schema (pre @ nt # post) m sender kPublic
          = Inl POINT_AT_INFINITY) \<and>
     (note_a nt = 0 \<longrightarrow>
        joinSplit_constructProof e schema (pre @ nt # post) m sender kPublic
          = Inl VIEWING_KEY_MALFORMED) \<and>
     (note_k nt = K_MAX + 1 \<and> 0 < note_a nt \<and> note_a nt < curve_n e \<longrightarrow>
        joinSplit_constructProof e schema (pre @ nt # post) m sender kPublic
          = Inl NOTE_VALUE_TOO_BIG)"
proof -
  have fail: "joinSplit_constructProof e schema ns m sender kPublic = Inl err"
    if "parseInputs e ns sender (Some m) (Some kPublic) = Inl err" for ns err
    using that by (simp add: joinSplit_constructProof_def constructSkeleton_def)
  have at_note: "parseInputs e (pre @ nt # post) sender (Some m) (Some kPublic) = Inl err"
    if "parseNote e nt = Inl err" for err
    using that assms by (simp add: parseInputs_def parseNotes_append)
  show ?thesis
  proof (intro conjI impI)
    assume "parseNotes e notes = Inr () \<and> \<not> kPublic < curve_n e"
    then show "joinSplit_constructProof e schema notes m sender kPublic = Inl KPUBLIC_MALFORMED"
      by (intro fail) (simp add: parseInputs_def)
  next
    assume "parseNotes e notes = Inr () \<and> kPublic < curve_n e \<and> length notes < m"
    then show "joinSplit_constructProof e schema notes m sender kPublic = Inl M_TOO_BIG"
      by (intro fail) (simp add: parseInputs_def)
  next
    assume "gamma nt = Point x y \<and> curve_p e \<le> x \<and> sigma nt \<noteq> Infinity \<and>
      0 < note_a nt \<and> note_a nt < curve_n e \<and> note_k nt \<le> K_MAX"
    then show "joinSplit_constructProof e schema (pre @ nt # post) m sender kPublic
        = Inl NOT_ON_CURVE"
      by (intro fail at_note) (simp add: parseNote_def)
  next
    assume "gamma nt = Infinity \<and> 0 < note_a nt \<and> note_a nt < curve_n e \<and> note_k nt \<le> K_MAX"
    then show "joinSplit_constructProof e schema (pre @ nt # post) m sender kPublic
        = Inl POINT_AT_INFINITY"
      by (intro fail at_note) (simp add: parseNote_def)
  next
    assume "note_a nt = 0"
    then show "joinSplit_constructProof e schema (pre @ nt # post) m sender kPublic
        = Inl VIEWING_KEY_MALFORMED"
      by (intro fail at_note) (simp add: parseNote_def)
  next
    assume "note_k nt = K_MAX + 1 \<and> 0 < note_a nt \<and> note_a nt < curve_n e"
    then show "joinSplit_constructProof e schema (pre @ nt # post) m sender kPublic
        = Inl NOTE_VALUE_TOO_BIG"
      by (intro fail at_note) (simp add: parseNote_def)
  qed
qed

text \<open>
  The six malformations of the join-split test, applied to the first of the five test
  notes, to \<open>kPublic\<close> and to \<open>m\<close>.
\<close>

theorem joinSplit_named_errors_witness:
  "joinSplit_constructProof test_env test_schema test_joinSplitNotes 2 test_sender (199 + 100)
     = Inl KPUBLIC_MALFORMED \<and>
   joinSplit_constructProof test_env test_schema test_joinSplitNotes 500 test_sender 0
     = Inl M_TOO_BIG \<and>
   joinSplit_constructProof test_env test_schema
     ((hd test_joinSplitNotes)\<lparr>gamma := Point (211 + 100) 19\<rparr> # tl test_joinSplitNotes)
     500 test_sender 0 = Inl NOT_ON_CURVE \<and>
   joinSplit_constructProof test_env test_schema
     ((hd test_joinSplitNotes)\<lparr>gamma := Infinity\<rparr> # tl test_joinSplitNotes)
     2 test_sender 0 = Inl POINT_AT_INFINITY \<and>
   joinSplit_constructProof test_env test_schema
     ((hd test_joinSplitNotes)\<lparr>note_a := 0\<rparr> # tl test_joinSplitNotes)
     2 test_sender 0 = Inl VIEWING_KEY_MALFORMED \<and>
   joinSplit_constructProof test_env test_schema
     ((hd test_joinSplitNotes)\<lparr>note_k := K_MAX + 1\<rparr> # tl test_joinSplitNotes)
     2 test_sender 0 = Inl NOTE_VALUE_TOO_BIG"
proof -
  have pre: "parseNotes test_env [] = Inr ()" by simp
  have hd0: "hd test_joinSplitNotes =
      \<lparr>note_k = 10, note_a = 102, gamma = Point 155 19, sigma = Point 196 2, owner = 0xC1\<rparr>"
    by (simp add: test_joinSplitNotes_def)
  note errs = joinSplit_named_errors [OF pre, where post = "tl test_joinSplitNotes"
      and schema = test_schema and sender = test_sender]
  have "joinSplit_constructProof test_env test_schema test_joinSplitNotes 2 test_sender (199 + 100)
          = Inl KPUBLIC_MALFORMED"
    using errs [where ?notes = test_joinSplitNotes and kPublic = "199 + 100" and m = 2]
      test_joinSplit_parseNotes by (simp add: test_env_simps)
  moreover have "joinSplit_constructProof test_env test_schema test_joinSplitNotes 500 test_sender 0
          = Inl M_TOO_BIG"
    using errs [where ?notes = test_joinSplitNotes and kPublic = 0 and m = 500]
      test_joinSplit_parseNotes by (simp add: test_env_simps test_lengths)
  moreover have "joinSplit_constructProof test_env test_schema
     ((hd test_joinSplitNotes)\<lparr>gamma := Point (211 + 100) 19\<rparr> # tl test_joinSplitNotes)
     500 test_sender 0 = Inl NOT_ON_CURVE"
    using errs [where nt = "(hd test_joinSplitNotes)\<lparr>gamma := Point (211 + 100) 19\<rparr>"
        and x = "211 + 100" and y = 19 and kPublic = 0 and m = 500]
    by (simp add: test_env_simps hd0 K_MAX_def)
  moreover have "joinSplit_constructProof test_env test_schema
     ((hd test_joinSplitNotes)\<lparr>gamma := Infinity\<rparr> # tl test_joinSplitNotes)
     2 test_sender 0 = Inl POINT_AT_INFINITY"
    using errs [where nt = "(hd test_joinSplitNotes)\<lparr>gamma := Infinity\<rparr>"
        and kPublic = 0 and m = 2]
    by (simp add: test_env_simps hd0 K_MAX_def)
  moreover have "joinSplit_constructProof test_env test_schema
     ((hd test_joinSplitNotes)\<lparr>note_a := 0\<rparr> # tl test_joinSplitNotes)
     2 test_sender 0 = Inl VIEWING_KEY_MALFORMED"
    using errs [where nt = "(hd test_joinSplitNotes)\<lparr>note_a := 0\<rparr>"
        and kPublic = 0 and m = 2]
    by simp
  moreover have "joinSplit_constructProof test_env test_schema
     ((hd test_joinSplitNotes)\<lparr>note_k := K_MAX + 1\<rparr> # tl test_joinSplitNotes)
     2 test_sender 0 = Inl NOTE_VALUE_TOO_BIG"
    using errs [where nt = "(hd test_joinSplitNotes)\<lparr>note_k := K_MAX + 1\<rparr>"
        and kPublic = 0 and m = 2]
    by (simp add: test_env_simps hd0)
  ultimately show ?thesis by blast
qed

text \<open>
  Claim C4. A join-split proof that is constructed has \<open>kPublic\<close> in \<open>[0, n)\<close> and
  \<open>m\<close> at most the number of notes; its \<open>proofData\<close> has one record per note; its
  challenge is a string of 66 characters, the group order being at most \<open>2^256\<close>; and
  the \<open>kBar\<close> slot of the final record holds \<open>kPublic\<close>.
\<close>

theorem joinSplit_wellformed:
  assumes "joinSplit_constructProof e schema notes m sender kPublic = Inr pr"
    and "curve_n e \<le> 2 ^ 256"
  shows "kPublic < curve_n e \<and> m \<le> length notes \<and>
         length (proofData pr) = length notes \<and>
         length (challenge pr) = 66 \<and>
         (notes \<noteq> [] \<longrightarrow> last (proofData pr) ! 0 = hex32 kPublic \<and>
                         parseHex (drop 2 (last (proofData pr) ! 0)) = kPublic)"
proof -
  let ?kBar = "joinSplit_kBar e notes kPublic"
  from assms(1) have sk: "constructSkeleton e schema ?kBar notes sender (Some m) (Some kPublic)
      [kPublic, m] = Inr pr"
    by (simp add: joinSplit_constructProof_def)
  then have "parseInputs e notes sender (Some m) (Some kPublic) = Inr ()"
    by (elim constructSkeleton_Inr)
  then have kp: "kPublic < curve_n e" and m: "m \<le> length notes"
    using parseInputs_Inr(2,3) by blast+
  have len: "length (proofData pr) = length notes"
    using sk by (rule constructSkeleton_length)
  from kp have "0 < curve_n e" by simp
  with sk have c66: "length (challenge pr) = 66"
    using assms(2) by (rule constructSkeleton_challenge)
  have "last (proofData pr) ! 0 = hex32 kPublic" if "notes \<noteq> []"
  proof -
    from that len have ne: "proofData pr \<noteq> []" by auto
    from that have i: "length notes - 1 < length notes" by simp
    from sk i obtain c kBar aBar gx gy sx sy where
      "kBar = ?kBar c (map (schema notes (projr (rollingHashOf notes))) [0..<length notes])
                (length notes - 1)"
      and "proofData pr ! (length notes - 1) =
             [hex32 kBar, hex32 aBar, hex32 gx, hex32 gy, hex32 sx, hex32 sy]"
      by (rule constructSkeleton_record)
    with that have "proofData pr ! (length notes - 1) ! 0 = hex32 kPublic"
      by (simp add: joinSplit_kBar_def)
    with ne len show ?thesis by (simp add: last_conv_nth)
  qed
  with kp m len c66 show ?thesis by (simp add: parseHex_hex32)
qed

text \<open>
  Two input and three output notes with \<open>kPublic = 0\<close>: five records, and the final
  \<open>kBar\<close> is 0.
\<close>

theorem joinSplit_wellformed_witness:
  "joinSplit_constructProof test_env test_schema test_joinSplitNotes 2 test_sender 0
     = Inr test_joinSplitProof \<and>
   curve_n test_env \<le> 2 ^ 256 \<and>
   length test_joinSplitNotes = 5 \<and>
   length (proofData test_joinSplitProof) = 5 \<and>
   length (challenge test_joinSplitProof) = 66 \<and>
   last (proofData test_joinSplitProof) ! 0 = hex32 0 \<and>
   parseHex (drop 2 (last (proofData test_joinSplitProof) ! 0)) = 0"
proof -
  have n: "curve_n test_env \<le> 2 ^ 256" by (simp add: test_env_simps)
  have ne: "test_joinSplitNotes \<noteq> []" by (simp add: test_joinSplitNotes_def)
  from joinSplit_wellformed [OF test_joinSplit n] ne test_lengths(3) test_joinSplit n
  show ?thesis by (simp add: parseHex_hex32)
qed

text \<open>
  Claim C5. In a private range proof over three notes, the \<open>kBar\<close> slot of the third
  record is the first block of 32 random bytes, read as a number and reduced modulo \<open>n\<close>:
  a scalar in \<open>[0, n)\<close>, which the slot read as a hexadecimal number gives back. It depends on nothing else: a second run over other notes, with
  another sender and other random scalars, hence another challenge and other blinding
  scalars, but the same random bytes, has the same third \<open>kBar\<close>.
\<close>

theorem third_kBar_is_filler:
  assumes "length notes = 3" and "length notes' = 3" and "0 < curve_n e"
    and "privateRange_constructProof e notes sender g = Inr (prf, g1)"
    and "privateRange_constructProof e notes' sender' ga = Inr (prf', g2)"
    and "bytesTape ga = bytesTape g" and "bytesPos ga = bytesPos g"
  shows "proofData prf ! 2 ! 0 = hex32 (bytesToBN (bytesTape g (bytesPos g)) mod curve_n e) \<and>
         bytesToBN (bytesTape g (bytesPos g)) mod curve_n e < curve_n e \<and>
         proofData prf' ! 2 ! 0 = proofData prf ! 2 ! 0 \<and>
         parseHex (drop 2 (proofData prf ! 2 ! 0)) =
           bytesToBN (bytesTape g (bytesPos g)) mod curve_n e"
proof -
  have filler: "proofData p ! 2 ! 0 = hex32 (bytesToBN (bytesTape s (bytesPos s)) mod curve_n e)"
    if len: "length ns = 3" and run: "privateRange_constructProof e ns sd s = Inr (p, s')"
    for ns sd s p s'
  proof -
    from len obtain n0 n1 n2 where ns: "ns = [n0, n1, n2]" using list3 by blast
    from run obtain rh bfs s1 c pd where bf: "constructBlindingFactors e ns rh s = (bfs, s1)"
      and pd: "proofDataLoop e ns c bfs 0 s1 = Inr (pd, s')"
      and p: "p = \<lparr>proofData = pd, challenge = hex32 c\<rparr>"
      by (elim constructProof_Inr)
    from bf obtain b0 b1 b2 where bfs: "bfs = [b0, b1, b2]"
      and s1: "s1 = s\<lparr>scalarPos := scalarPos s + 6\<rparr>"
      unfolding ns blindingFactors3 by (auto simp: Let_def)
    from pd obtain r0 r1 r2 where rs: "pd = [r0, r1, r2]"
      and r2: "proofRecord e n2 c b2 2 s1 = Inr (r2, s')"
      unfolding ns bfs by (elim proofDataLoop3)
    from r2 have "r2 ! 0 = hex32 (bytesToBN (bytesTape s1 (bytesPos s1)) mod curve_n e)"
      by (auto elim!: proofRecord_Inr)
    then show ?thesis by (simp add: p rs s1)
  qed
  from filler [OF assms(1) assms(4)] filler [OF assms(2) assms(5)] assms(3,6,7)
  show ?thesis by (simp add: parseHex_hex32)
qed

text \<open>
  Two runs with the same random bytes: both third \<open>kBar\<close> slots hold 101, which is
  not \<open>k_2 * c + bk_2 = 160\<close> of the first run.
\<close>

theorem third_kBar_is_filler_witness:
  "length test_notes = 3 \<and> length test_notes2 = 3 \<and> 0 < curve_n test_env \<and>
   privateRange_constructProof test_env test_notes test_sender test_rng
     = Inr (test_proof, test_rng\<lparr>scalarPos := 6, bytesPos := 1\<rparr>) \<and>
   privateRange_constructProof test_env test_notes2 test_sender2 test_rng2
     = Inr (test_proof2, test_rng2\<lparr>scalarPos := 6, bytesPos := 1\<rparr>) \<and>
   bytesTape test_rng2 = bytesTape test_rng \<and> bytesPos test_rng2 = bytesPos test_rng \<and>
   proofData test_proof ! 2 ! 0 = hex32 101 \<and>
   proofData test_proof2 ! 2 ! 0 = hex32 101 \<and>
   parseHex (drop 2 (proofData test_proof ! 2 ! 0)) = 101 \<and>
   (note_k (test_notes ! 2) * 39 + bf_bk (test_blindingFactors ! 2)) mod curve_n test_env = 160"
proof -
  have n: "0 < curve_n test_env" by (simp add: test_env_simps)
  have tape: "bytesTape test_rng2 = bytesTape test_rng" "bytesPos test_rng2 = bytesPos test_rng"
    by (simp_all add: test_rng_simps)
  have filler: "bytesToBN (bytesTape test_rng (bytesPos test_rng)) mod curve_n test_env = 101"
    by (simp add: test_rng_simps test_env_simps test_filler)
  have other: "(note_k (test_notes ! 2) * 39 + bf_bk (test_blindingFactors ! 2))
                 mod curve_n test_env = 160"
    by (simp add: test_notes_def test_blindingFactors_def test_env_simps)
  from third_kBar_is_filler [OF test_lengths(1,2) n test_constructProof test_constructProof2 tape]
  have "proofData test_proof ! 2 ! 0 = hex32 101" "proofData test_proof2 ! 2 ! 0 = hex32 101"
    "parseHex (drop 2 (proofData test_proof ! 2 ! 0)) = 101"
    unfolding filler by (simp_all add: parseHex_hex32)
  with test_lengths(1,2) n test_constructProof test_constructProof2 tape other
  show ?thesis by simp
qed

text \<open>
  Claim C6. Over four notes, the blinding-factor records that
  \<open>getBlindingFactorsAndChallenge\<close> returns have equal \<open>bk\<close> in the first and third
  records and equal \<open>bk\<close> in the second and fourth.
\<close>

theorem swap_blinding_scalars:
  assumes "length notes = 4"
    and "getBlindingFactorsAndChallenge e notes finalHash g = Inr (bfs, c, g')"
  shows "length bfs = 4 \<and> bf_bk (bfs ! 0) = bf_bk (bfs ! 2) \<and> bf_bk (bfs ! 1) = bf_bk (bfs ! 3)"
proof -
  from assms(1) obtain n0 n1 n2 n3 where nts: "notes = [n0, n1, n2, n3]"
    using list4 by blast
  from assms(2) have "bfs = fst (swapBlindingLoop e notes 0 [] g)"
    by (auto simp: getBlindingFactorsAndChallenge_def split: prod.splits sum.splits)
  then show ?thesis
    unfolding nts
    by (simp add: randomGroupScalar_def split_beta Let_def numeral_2_eq_2 numeral_3_eq_3)
qed

text \<open>
  The four test notes of values 10, 20, 10, 20.
\<close>

theorem swap_blinding_scalars_witness:
  "length test_swapNotes = 4 \<and>
   rollingHashOf test_swapNotes = Inr (transcriptOf
     [112, 84, 111, 96, 166, 175, 91, 127, 160, 55, 142, 77, 92, 177, 207, 19]) \<and>
   getBlindingFactorsAndChallenge test_env test_swapNotes (transcriptOf
     [112, 84, 111, 96, 166, 175, 91, 127, 160, 55, 142, 77, 92, 177, 207, 19]) test_rng
     = Inr (test_swapBlindingFactors, 153, test_rng\<lparr>scalarPos := 8\<rparr>) \<and>
   length test_swapBlindingFactors = 4 \<and>
   bf_bk (test_swapBlindingFactors ! 0) = bf_bk (test_swapBlindingFactors ! 2) \<and>
   bf_bk (test_swapBlindingFactors ! 1) = bf_bk (test_swapBlindingFactors ! 3)"
  using swap_blinding_scalars [OF test_lengths(4) test_swap] test_lengths(4) test_swap
    test_swap_rollingHash
  by blast



text \<open>
  Claim C8. A dividend computation proof over three notes returns three records of six
  elements in \<open>proofDataUnformatted\<close>, their concatenation of 18 elements in
  \<open>proofData\<close>, and a challenge of 66 characters, the group order being at most
  \<open>2^256\<close>.
\<close>

theorem dividend_shape:
  assumes "length notes = 3"
    and "dividend_constructProof e schema kBarOf notes za zb sender = Inr res"
    and "curve_n e \<le> 2 ^ 256"
  shows "length (proofDataUnformatted res) = 3 \<and>
         (\<forall>r \<in> set (proofDataUnformatted res). length r = 6) \<and>
         dv_proofData res = concat (proofDataUnformatted res) \<and>
         length (dv_proofData res) = 18 \<and>
         length (dv_challenge res) = 66"
proof -
  from assms(2) obtain pr where
    sk: "constructSkeleton e schema kBarOf notes sender None None [za, zb] = Inr pr"
    and res_eq: "res = \<lparr>proofDataUnformatted = proofData pr, dv_proofData = concat (proofData pr),
                     dv_challenge = challenge pr\<rparr>"
    by (auto simp: dividend_constructProof_def split: sum.splits)
  from sk have "parseInputs e notes sender None None = Inr ()"
    by (elim constructSkeleton_Inr)
  then have "parseNotes e notes = Inr ()" by (rule parseInputs_Inr(1))
  moreover from assms(1) have "notes ! 0 \<in> set notes" by (intro nth_mem) simp
  ultimately have "parseNote e (notes ! 0) = Inr ()" by (rule parseNotes_Inr)
  from parseNote_Inr(2) [OF this] have n0: "0 < curve_n e" by simp
  have len: "length (proofData pr) = length notes"
    using sk by (rule constructSkeleton_length)
  from sk n0 assms(3) have c66: "length (challenge pr) = 66"
    by (rule constructSkeleton_challenge)
  have six: "\<forall>r \<in> set (proofData pr). length r = 6"
  proof
    fix r assume "r \<in> set (proofData pr)"
    then obtain i where i: "i < length notes" and r: "r = proofData pr ! i"
      using len by (auto simp: in_set_conv_nth)
    from sk i obtain c kBar aBar gx gy sx sy where
      "proofData pr ! i = [hex32 kBar, hex32 aBar, hex32 gx, hex32 gy, hex32 sx, hex32 sy]"
      by (rule constructSkeleton_record)
    with r show "length r = 6" by simp
  qed
  from length_concat_const [OF six] len assms(1)
  have "length (concat (proofData pr)) = 18" by simp
  with six len c66 assms(1) show ?thesis by (simp add: res_eq)
qed

text \<open>
  The notes of values 90, 4 and 50 with \<open>za = 100\<close> and \<open>zb = 5\<close>.
\<close>

theorem dividend_shape_witness:
  "length test_dividendNotes = 3 \<and>
   dividend_constructProof test_env test_schema (response_kBar test_env test_dividendNotes)
     test_dividendNotes 100 5 test_sender = Inr test_dividendResult \<and>
   curve_n test_env \<le> 2 ^ 256 \<and>
   length (proofDataUnformatted test_dividendResult) = 3 \<and>
   length (proofDataUnformatted test_dividendResult ! 0) = 6 \<and>
   length (proofDataUnformatted test_dividendResult ! 1) = 6 \<and>
   length (proofDataUnformatted test_dividendResult ! 2) = 6 \<and>
   dv_proofData test_dividendResult = concat (proofDataUnformatted test_dividendResult) \<and>
   length (dv_proofData test_dividendResult) = 18 \<and>
   length (dv_challenge test_dividendResult) = 66"
proof -
  have n: "curve_n test_env \<le> 2 ^ 256" by (simp add: test_env_simps)
  have mem: "proofDataUnformatted test_dividendResult ! 0
               \<in> set (proofDataUnformatted test_dividendResult)"
    "proofDataUnformatted test_dividendResult ! 1 \<in> set (proofDataUnformatted test_dividendResult)"
    "proofDataUnformatted test_dividendResult ! 2 \<in> set (proofDataUnformatted test_dividendResult)"
    by (simp_all add: test_dividendResult_def)
  from dividend_shape [OF test_lengths(5) test_dividend n] mem test_lengths(5) test_dividend n
  show ?thesis by blast
qed

text \<open>
  Claim C9. Over three notes, the records that \<open>constructBlindingFactors\<close> returns
  satisfy \<open>bk_2 = bk_0 - bk_1\<close> modulo \<open>n\<close>: the third record holds the difference, not
  the scalar that was drawn for it.
\<close>

theorem blinding_scalar_difference:
  assumes "length notes = 3" and "0 < curve_n e"
    and "constructBlindingFactors e notes rollingHash g = (bfs, g')"
  shows "bf_bk (bfs ! 2) = redSub e (bf_bk (bfs ! 0)) (bf_bk (bfs ! 1)) \<and>
         int (bf_bk (bfs ! 2)) = (int (bf_bk (bfs ! 0)) - int (bf_bk (bfs ! 1))) mod int (curve_n e)"
proof -
  from assms(1) obtain n0 n1 n2 where nts: "notes = [n0, n1, n2]" using list3 by blast
  from assms(3) have "bf_bk (bfs ! 2) = redSub e (bf_bk (bfs ! 0)) (bf_bk (bfs ! 1))"
    unfolding nts blindingFactors3 by (auto simp: Let_def)
  moreover have "int (redSub e a b) = (int a - int b) mod int (curve_n e)" for a b
    using assms(2) by (simp add: redSub_def)
  ultimately show ?thesis by simp
qed

text \<open>
  On the test notes \<open>bk_2 = (49 - 123) mod 199 = 125\<close>, where 197 was drawn.
\<close>

theorem blinding_scalar_difference_witness:
  "length test_notes = 3 \<and> 0 < curve_n test_env \<and>
   constructBlindingFactors test_env test_notes test_rollingHash0 test_rng
     = (test_blindingFactors, test_rng\<lparr>scalarPos := 6\<rparr>) \<and>
   bf_bk (test_blindingFactors ! 2)
     = redSub test_env (bf_bk (test_blindingFactors ! 0)) (bf_bk (test_blindingFactors ! 1)) \<and>
   int (bf_bk (test_blindingFactors ! 2)) = (49 - 123) mod 199"
proof -
  have n: "0 < curve_n test_env" by (simp add: test_env_simps)
  have bk: "int (bf_bk (test_blindingFactors ! 0)) = 49" "int (bf_bk (test_blindingFactors ! 1)) = 123"
    "int (curve_n test_env) = 199"
    by (simp_all add: test_blindingFactors_def test_env_simps)
  from blinding_scalar_difference [OF test_lengths(1) n test_constructBlindingFactors]
  have "bf_bk (test_blindingFactors ! 2)
     = redSub test_env (bf_bk (test_blindingFactors ! 0)) (bf_bk (test_blindingFactors ! 1))"
    and "int (bf_bk (test_blindingFactors ! 2)) = (49 - 123) mod 199"
    unfolding bk by simp_all
  with test_lengths(1) n test_constructBlindingFactors show ?thesis by simp
qed

text \<open>
  Claim C10. Whatever the notes and the sender, the proof output that
  \<open>encodePrivateRangeTransaction\<close> hands to the output coder has the zero address as
  \<open>publicOwner\<close> and 0 as \<open>publicValue\<close>; the expected output is the coder's result for
  this one proof output, without its first \<open>0x42\<close> characters.
\<close>

theorem expectedOutput_public_fields:
  assumes "encodePrivateRangeTransaction e coder originalNote comparisonNote utilityNote sender g
             = Inr (tx, g')"
    and "privateRange_constructProof e (originalNote @ comparisonNote @ utilityNote) sender g
             = Inr (pr, g1)"
  shows "expectedOutput tx = ''0x'' @ drop 66
           (outputCoder_encodeProofOutputs coder
              [\<lparr>inputNotes = originalNote @ comparisonNote, outputNotes = utilityNote,
                publicOwner = ZERO_ADDRESS, publicValue = 0,
                po_challenge = challenge pr\<rparr>]) \<and>
         publicOwner \<lparr>inputNotes = originalNote @ comparisonNote, outputNotes = utilityNote,
                publicOwner = ZERO_ADDRESS, publicValue = 0,
                po_challenge = challenge pr\<rparr> = 0 \<and>
         g' = g1"
  using assms
  by (auto simp: encodePrivateRangeTransaction_def Let_def ZERO_ADDRESS_def split: sum.splits)

text \<open>
  The transaction of the three test notes.
\<close>

theorem expectedOutput_public_fields_witness:
  "encodePrivateRangeTransaction test_env test_coder [test_notes ! 0] [test_notes ! 1]
     [test_notes ! 2] test_sender test_rng
     = Inr (test_transaction, test_rng\<lparr>scalarPos := 6, bytesPos := 1\<rparr>) \<and>
   privateRange_constructProof test_env ([test_notes ! 0] @ [test_notes ! 1] @ [test_notes ! 2])
     test_sender test_rng = Inr (test_proof, test_rng\<lparr>scalarPos := 6, bytesPos := 1\<rparr>) \<and>
   expectedOutput test_transaction = ''0x'' @ drop 66
     (outputCoder_encodeProofOutputs test_coder
        [\<lparr>inputNotes = [test_notes ! 0] @ [test_notes ! 1], outputNotes = [test_notes ! 2],
          publicOwner = ZERO_ADDRESS, publicValue = 0, po_challenge = challenge test_proof\<rparr>]) \<and>
   expectedOutput test_transaction = ''0x'' @ hex32 0 @ hex32 0 @ hex32 39"
proof -
  have run: "privateRange_constructProof test_env
      ([test_notes ! 0] @ [test_notes ! 1] @ [test_notes ! 2]) test_sender test_rng
      = Inr (test_proof, test_rng\<lparr>scalarPos := 6, bytesPos := 1\<rparr>)"
    using test_constructProof by (simp add: test_notes_def)
  have out: "expectedOutput test_transaction = ''0x'' @ hex32 0 @ hex32 0 @ hex32 39"
    by (simp add: test_transaction_def)
  from expectedOutput_public_fields [OF test_encode run] test_encode run out
  show ?thesis by blast
qed

end
